theory Spec2Isabelle
  imports Main "HOL-Library.Sublist"
begin

section \<open>Data model of cmd/main.go\<close>

text \<open>
  The Go structs \<^verbatim>\<open>BookStore\<close> (the stored document) and \<^verbatim>\<open>BookRequest\<close> (the bound
  request body).  Go strings are byte sequences, so \<^typ>\<open>string\<close> (a list of 8-bit
  characters) is the model; Go's \<^verbatim>\<open>int\<close> is a 64-bit integer on the build platform
  (linux/amd64), modelled as \<^typ>\<open>int\<close> with the range checks and the wrap-around
  written out where the code can reach them.
\<close>

record BookStore =
  ID :: string
  BookName :: string
  BookAuthor :: string
  BookISBN :: string
  BookPages :: int
  BookYear :: int

record BookRequest =
  ID :: string
  Title :: string
  Author :: string
  Pages :: string
  Edition :: string
  Year :: string

text \<open>
  The errors the repository functions return.  \<open>DuplicateRecord\<close> is
  \<^verbatim>\<open>fmt.Errorf("book already exists")\<close>, \<open>NotFound\<close> is \<^verbatim>\<open>fmt.Errorf("book not found")\<close>,
  \<open>ErrNoDocuments\<close> is the driver's answer of \<^verbatim>\<open>FindOne\<close> without a match, and
  \<open>StoreUnavailable\<close> stands for every other error of the driver.
\<close>

datatype error = DuplicateRecord | NotFound | ErrNoDocuments | StoreUnavailable

text \<open>
  The text of \<^verbatim>\<open>err.Error()\<close>, which the handlers compare with "book already exists"
  and "book not found".  The text given for \<open>StoreUnavailable\<close> stands for the
  driver's messages, none of which is one of these two.
\<close>

fun Error :: "error \<Rightarrow> string" where
  "Error DuplicateRecord = ''book already exists''"
| "Error NotFound = ''book not found''"
| "Error ErrNoDocuments = ''mongo: no documents in result''"
| "Error StoreUnavailable = ''server selection error''"

text \<open>
  The state the functions work on: the collection behind \<^verbatim>\<open>coll\<close> and the package
  variable \<^verbatim>\<open>idCounter\<close>.  The collection is the list of its documents in natural
  (insertion) order; \<open>reachable\<close> says whether the driver's calls succeed.  Every
  document was stored from a \<^verbatim>\<open>BookStore\<close> value, so it has exactly the fields
  \<^verbatim>\<open>id, bookname, bookauthor, bookisbn, bookpages, bookyear\<close> (the driver lowercases the
  untagged field names).
\<close>

record state =
  reachable :: bool
  docs :: "BookStore list"
  idCounter :: int

subsection \<open>The driver's calls on the collection\<close>

text \<open>
  A filter document is the predicate it denotes.  \<^verbatim>\<open>DeleteOne\<close> removes the first
  matching document and reports how many it removed; \<^verbatim>\<open>UpdateOne\<close> rewrites the first
  matching document and reports how many matched; \<^verbatim>\<open>InsertOne\<close> appends;
  \<^verbatim>\<open>FindOne\<close> returns the first match; \<^verbatim>\<open>Find\<close> returns all matches in natural order.
\<close>

fun delete_first :: "('a \<Rightarrow> bool) \<Rightarrow> 'a list \<Rightarrow> 'a list" where
  "delete_first P [] = []"
| "delete_first P (x # xs) = (if P x then xs else x # delete_first P xs)"

fun update_first :: "('a \<Rightarrow> bool) \<Rightarrow> ('a \<Rightarrow> 'a) \<Rightarrow> 'a list \<Rightarrow> 'a list" where
  "update_first P f [] = []"
| "update_first P f (x # xs) = (if P x then f x # xs else x # update_first P f xs)"

definition count_first :: "('a \<Rightarrow> bool) \<Rightarrow> 'a list \<Rightarrow> nat" where
  "count_first P xs = (case find P xs of None \<Rightarrow> 0 | Some _ \<Rightarrow> 1)"

definition FindOne :: "state \<Rightarrow> (BookStore \<Rightarrow> bool) \<Rightarrow> error + BookStore" where
  "FindOne st flt =
     (if \<not> reachable st then Inl StoreUnavailable
      else case find flt (docs st) of None \<Rightarrow> Inl ErrNoDocuments | Some b \<Rightarrow> Inr b)"

definition Find :: "state \<Rightarrow> (BookStore \<Rightarrow> bool) \<Rightarrow> error + BookStore list" where
  "Find st flt =
     (if \<not> reachable st then Inl StoreUnavailable else Inr (filter flt (docs st)))"

definition InsertOne :: "state \<Rightarrow> BookStore \<Rightarrow> error option \<times> state" where
  "InsertOne st b =
     (if \<not> reachable st then (Some StoreUnavailable, st)
      else (None, st\<lparr>docs := docs st @ [b]\<rparr>))"

definition UpdateOne ::
  "state \<Rightarrow> (BookStore \<Rightarrow> bool) \<Rightarrow> (BookStore \<Rightarrow> BookStore) \<Rightarrow> (error + nat) \<times> state" where
  "UpdateOne st flt upd =
     (if \<not> reachable st then (Inl StoreUnavailable, st)
      else (Inr (count_first flt (docs st)), st\<lparr>docs := update_first flt upd (docs st)\<rparr>))"

definition DeleteOne :: "state \<Rightarrow> (BookStore \<Rightarrow> bool) \<Rightarrow> (error + nat) \<times> state" where
  "DeleteOne st flt =
     (if \<not> reachable st then (Inl StoreUnavailable, st)
      else (Inr (count_first flt (docs st)), st\<lparr>docs := delete_first flt (docs st)\<rparr>))"


subsection \<open>Library functions the code calls\<close>

text \<open>
  \<^verbatim>\<open>strconv.ParseInt(s, 10, 64)\<close>: an optional sign, then one or more decimal digits and
  nothing else; a value outside the 64-bit range is an error.  \<open>None\<close> is \<^verbatim>\<open>err != nil\<close>.
\<close>

definition is_digit :: "char \<Rightarrow> bool" where
  "is_digit c \<longleftrightarrow> c \<in> set ''0123456789''"

definition digit_val :: "char \<Rightarrow> nat" where
  "digit_val c = of_char c - 48"

definition decimal :: "string \<Rightarrow> nat" where
  "decimal s = foldl (\<lambda>n c. 10 * n + digit_val c) 0 s"

definition ParseInt :: "string \<Rightarrow> int option" where
  "ParseInt s0 =
     (if s0 = [] then None
      else
        let neg = (hd s0 = CHR ''-'');
            s = (if hd s0 = CHR ''+'' \<or> hd s0 = CHR ''-'' then tl s0 else s0)
        in if s = [] \<or> \<not> list_all is_digit s then None
           else
             let un = decimal s
             in if \<not> neg \<and> un \<ge> 2 ^ 63 then None
                else if neg \<and> un > 2 ^ 63 then None
                else Some (if neg then - int un else int un))"

text \<open>
  \<^verbatim>\<open>strconv.FormatInt(i, 10)\<close>, and the wrap-around of 64-bit signed arithmetic.
\<close>

definition digit_char :: "nat \<Rightarrow> char" where
  "digit_char d = ''0123456789'' ! d"

fun string_of_nat :: "nat \<Rightarrow> string" where
  "string_of_nat n =
     (if n < 10 then [digit_char n] else string_of_nat (n div 10) @ [digit_char (n mod 10)])"

declare string_of_nat.simps [simp del]

definition FormatInt :: "int \<Rightarrow> string" where
  "FormatInt i = (if i < 0 then CHR ''-'' # string_of_nat (nat (- i)) else string_of_nat (nat i))"

definition wrap64 :: "int \<Rightarrow> int" where
  "wrap64 x = (x + 2 ^ 63) mod 2 ^ 64 - 2 ^ 63"

text \<open>
  \<^verbatim>\<open>fmt.Sscanf(str, "%d", &v)\<close>.  The scanner skips leading space (a newline is an
  error, since \<^verbatim>\<open>Sscanf\<close> does not treat newlines as space), accepts one sign, needs at
  least one decimal digit, takes all the digits that follow and hands the token to
  \<^verbatim>\<open>ParseInt\<close>.  Input after the digits is not looked at.  \<open>Some v\<close> is the return
  \<^verbatim>\<open>(1, nil)\<close> with \<open>v\<close> stored; \<open>None\<close> is an error return, which leaves the
  variable as it was.  \<open>space_encodings\<close> are the UTF-8 encodings of the runes of the
  scanner's space table.  The scanner skips space twice, before the verb and again
  before the number, which is the same as once; a carriage return before a newline is
  skipped and the newline is then the error.  Its width limit of \<open>2 ^ 30\<close> characters
  is not modelled.
\<close>

definition space_encodings :: "string list" where
  "space_encodings =
     [[CHR 0x09], [CHR 0x0A], [CHR 0x0B], [CHR 0x0C], [CHR 0x0D], [CHR 0x20],
      [CHR 0xC2, CHR 0x85], [CHR 0xC2, CHR 0xA0], [CHR 0xE1, CHR 0x9A, CHR 0x80],
      [CHR 0xE2, CHR 0x80, CHR 0x80], [CHR 0xE2, CHR 0x80, CHR 0x81],
      [CHR 0xE2, CHR 0x80, CHR 0x82], [CHR 0xE2, CHR 0x80, CHR 0x83],
      [CHR 0xE2, CHR 0x80, CHR 0x84], [CHR 0xE2, CHR 0x80, CHR 0x85],
      [CHR 0xE2, CHR 0x80, CHR 0x86], [CHR 0xE2, CHR 0x80, CHR 0x87],
      [CHR 0xE2, CHR 0x80, CHR 0x88], [CHR 0xE2, CHR 0x80, CHR 0x89],
      [CHR 0xE2, CHR 0x80, CHR 0x8A], [CHR 0xE2, CHR 0x80, CHR 0xA8],
      [CHR 0xE2, CHR 0x80, CHR 0xA9], [CHR 0xE2, CHR 0x80, CHR 0xAF],
      [CHR 0xE2, CHR 0x81, CHR 0x9F], [CHR 0xE3, CHR 0x80, CHR 0x80]]"

definition isSpace_width :: "string \<Rightarrow> nat" where
  "isSpace_width s =
     (case find (\<lambda>e. prefix e s) space_encodings of None \<Rightarrow> 0 | Some e \<Rightarrow> length e)"

fun SkipSpace :: "string \<Rightarrow> string option" where
  "SkipSpace [] = Some []"
| "SkipSpace (r # rest) =
     (if r = CHR 0x0A then None
      else if isSpace_width (r # rest) = 0 then Some (r # rest)
      else SkipSpace (drop (isSpace_width (r # rest) - 1) rest))"

definition Sscanf_d :: "string \<Rightarrow> int option" where
  "Sscanf_d str =
     (case SkipSpace str of
        None \<Rightarrow> None
      | Some s \<Rightarrow>
          (case s of
             [] \<Rightarrow> None
           | c # cs \<Rightarrow>
               let sgn = (if c = CHR ''+'' \<or> c = CHR ''-'' then [c] else []);
                   tok = takeWhile is_digit (drop (length sgn) s)
               in if tok = [] then None else ParseInt (sgn @ tok)))"

text \<open>
  The aggregation pipeline of \<^verbatim>\<open>getNextID\<close>: every document has an \<^verbatim>\<open>id\<close>, the sort is
  descending on that field, and one document is kept.  The field is a string, and the
  store orders strings by their bytes: \<open>string_less\<close>.
\<close>

fun string_less :: "string \<Rightarrow> string \<Rightarrow> bool" where
  "string_less [] [] = False"
| "string_less [] (y # ys) = True"
| "string_less (x # xs) [] = False"
| "string_less (x # xs) (y # ys) =
     ((of_char x :: nat) < of_char y \<or> (x = y \<and> string_less xs ys))"

fun top_by_id :: "BookStore \<Rightarrow> BookStore list \<Rightarrow> BookStore" where
  "top_by_id b [] = b"
| "top_by_id b (x # xs) =
     top_by_id (if string_less (BookStore.ID b) (BookStore.ID x) then x else b) xs"

definition Aggregate_sort_id_desc_limit1 :: "state \<Rightarrow> error + BookStore list" where
  "Aggregate_sort_id_desc_limit1 st =
     (if \<not> reachable st then Inl StoreUnavailable
      else Inr (case docs st of [] \<Rightarrow> [] | b # bs \<Rightarrow> [top_by_id b bs]))"

section \<open>The identifier allocator\<close>

text \<open>The process starts with \<^verbatim>\<open>var idCounter int64 = 1000000\<close>.\<close>

definition idCounter_init :: int where
  "idCounter_init = 1000000"

definition getNextID :: "state \<Rightarrow> string \<times> state" where
  "getNextID st =
     (let st1 =
        (case Aggregate_sort_id_desc_limit1 st of
           Inl err \<Rightarrow> st
         | Inr results \<Rightarrow>
             (case results of
                [] \<Rightarrow> st
              | r # _ \<Rightarrow>
                  (case ParseInt (BookStore.ID r) of
                     None \<Rightarrow> st
                   | Some existingID \<Rightarrow> st\<lparr>idCounter := wrap64 (existingID + 1)\<rparr>)));
        id' = FormatInt (idCounter st1)
      in (id', st1\<lparr>idCounter := wrap64 (idCounter st1 + 1)\<rparr>))"

section \<open>The repository functions\<close>

text \<open>
  The block that reads \<^verbatim>\<open>Pages\<close> and \<^verbatim>\<open>Year\<close> in \<^verbatim>\<open>createBook\<close> and \<^verbatim>\<open>updateBook\<close>:
  the variable starts at 0, is scanned only from a non-empty string, and is reset to 0
  when the scan reports an error.
\<close>

definition scan_or_zero :: "string \<Rightarrow> int" where
  "scan_or_zero s =
     (if s \<noteq> [] then (case Sscanf_d s of None \<Rightarrow> 0 | Some v \<Rightarrow> v) else 0)"

subsection \<open>bookExists and createBook\<close>

definition bookExists :: "state \<Rightarrow> BookStore \<Rightarrow> bool" where
  "bookExists st book =
     (case FindOne st
        (\<lambda>d. BookName d = BookName book \<and> BookAuthor d = BookAuthor book \<and>
             BookYear d = BookYear book \<and> BookPages d = BookPages book \<and>
             BookISBN d = BookISBN book) of
        Inl err \<Rightarrow> False
      | Inr result \<Rightarrow> True)"

definition createBook :: "state \<Rightarrow> BookRequest \<Rightarrow> error option \<times> state" where
  "createBook st bookReq =
     (let pages = scan_or_zero (Pages bookReq);
          year = scan_or_zero (Year bookReq);
          (bookID, st1) =
            (if BookRequest.ID bookReq = [] then getNextID st
             else (BookRequest.ID bookReq, st));
          book = \<lparr>BookStore.ID = bookID, BookName = Title bookReq,
                  BookAuthor = Author bookReq, BookISBN = Edition bookReq,
                  BookPages = pages, BookYear = year\<rparr>
      in if bookExists st1 book then (Some DuplicateRecord, st1)
         else InsertOne st1 book)"

subsection \<open>updateBook\<close>

definition updateBook :: "state \<Rightarrow> string \<Rightarrow> BookRequest \<Rightarrow> error option \<times> state" where
  "updateBook st id' bookReq =
     (let pages = scan_or_zero (Pages bookReq);
          year = scan_or_zero (Year bookReq)
      in case UpdateOne st (\<lambda>b. BookStore.ID b = id')
             (\<lambda>b. b\<lparr>BookName := Title bookReq, BookAuthor := Author bookReq,
                    BookISBN := Edition bookReq, BookPages := pages, BookYear := year\<rparr>) of
           (Inl err, st') \<Rightarrow> (Some err, st')
         | (Inr MatchedCount, st') \<Rightarrow>
             if MatchedCount = 0 then (Some NotFound, st') else (None, st'))"

subsection \<open>deleteBook\<close>

definition deleteBook :: "state \<Rightarrow> string \<Rightarrow> error option \<times> state" where
  "deleteBook st id' =
     (case DeleteOne st (\<lambda>b. BookStore.ID b = id') of
        (Inl err, st') \<Rightarrow> (Some err, st')
      | (Inr DeletedCount, st') \<Rightarrow>
          if DeletedCount = 0 then (Some NotFound, st') else (None, st'))"

subsection \<open>findAllBooks, getBookByID and getAuthors\<close>

text \<open>
  A \<^verbatim>\<open>map[string]interface{}\<close> literal is the list of its entries; a value is a string,
  an integer or a slice of strings.  A panic of the function is \<open>None\<close>: the functions
  below panic when the driver's call fails.
\<close>

datatype val = Str string | Num int | Strs "string list"

type_synonym entry = "(string \<times> val) list"

definition findAllBooks :: "state \<Rightarrow> entry list option" where
  "findAllBooks st =
     (case Find st (\<lambda>b. True) of
        Inl err \<Rightarrow> None
      | Inr results \<Rightarrow>
          Some (map (\<lambda>res.
            [(''ID'', Str (BookStore.ID res)),
             (''BookName'', Str (BookName res)),
             (''BookAuthor'', Str (BookAuthor res)),
             (''BookISBN'', Str (BookISBN res)),
             (''BookPages'', Num (BookPages res))]) results))"

definition getBookByID :: "state \<Rightarrow> string \<Rightarrow> error + entry" where
  "getBookByID st id' =
     (case FindOne st (\<lambda>b. BookStore.ID b = id') of
        Inl err \<Rightarrow> Inl err
      | Inr book \<Rightarrow>
          Inr [(''ID'', Str (BookStore.ID book)),
               (''BookName'', Str (BookName book)),
               (''BookAuthor'', Str (BookAuthor book)),
               (''BookISBN'', Str (BookISBN book)),
               (''BookPages'', Num (BookPages book)),
               (''BookYear'', Num (BookYear book))])"

text \<open>
  The first loop of \<^verbatim>\<open>getAuthors\<close> fills \<^verbatim>\<open>authorBooks\<close>, a Go map from author to titles;
  \<^verbatim>\<open>append\<close> to a missing key appends to the nil slice.  The second loop turns each
  key and its slice into one entry, in the unspecified order Go ranges over a map, so
  the result is the map itself.
\<close>

fun authorBooks_loop ::
  "BookStore list \<Rightarrow> (string \<rightharpoonup> string list) \<Rightarrow> (string \<rightharpoonup> string list)" where
  "authorBooks_loop [] authorBooks = authorBooks"
| "authorBooks_loop (res # results) authorBooks =
     (if BookISBN res = [] \<or> BookName res = [] then authorBooks_loop results authorBooks
      else authorBooks_loop results
        (authorBooks(BookAuthor res \<mapsto>
           (case authorBooks (BookAuthor res) of None \<Rightarrow> [] | Some books \<Rightarrow> books)
             @ [BookName res])))"

definition getAuthors :: "state \<Rightarrow> (string \<rightharpoonup> string list) option" where
  "getAuthors st =
     (case Find st (\<lambda>b. True) of
        Inl err \<Rightarrow> None
      | Inr results \<Rightarrow> Some (authorBooks_loop results Map.empty))"

section \<open>The HTTP handlers\<close>

text \<open>
  A response is the echo call that produced it: \<^verbatim>\<open>c.NoContent(code)\<close>,
  \<^verbatim>\<open>c.JSON(code, map[string]string{...})\<close>, \<^verbatim>\<open>c.String(code, s)\<close> or
  \<^verbatim>\<open>c.Render(code, name, data)\<close>.
\<close>

datatype response =
  NoContent nat
| JSON nat "(string \<times> string) list"
| String nat string
| Render nat string "entry list"

definition StatusOK :: nat where "StatusOK = 200"
definition StatusNoContent :: nat where "StatusNoContent = 204"

text \<open>The handler of \<^verbatim>\<open>DELETE /api/books/:id\<close>.\<close>

definition delete_api_books :: "state \<Rightarrow> string \<Rightarrow> response \<times> state" where
  "delete_api_books st id' =
     (case deleteBook st id' of
        (Some err, st') \<Rightarrow>
          if Error err = ''book not found'' then (NoContent StatusNoContent, st')
          else (JSON StatusOK [(''error'', ''Failed to delete book'')], st')
      | (None, st') \<Rightarrow> (JSON StatusOK [(''message'', ''Book deleted successfully'')], st'))"


text \<open>
  The handlers of \<^verbatim>\<open>POST /api/books\<close> and \<^verbatim>\<open>PUT /api/books/:id\<close>.  The argument is the
  result of \<^verbatim>\<open>c.Bind\<close>: \<open>None\<close> when binding the body failed.
\<close>

definition StatusCreated :: nat where "StatusCreated = 201"
definition StatusConflict :: nat where "StatusConflict = 409"
definition StatusNotFound :: nat where "StatusNotFound = 404"
definition StatusBadRequest :: nat where "StatusBadRequest = 400"
definition StatusInternalServerError :: nat where "StatusInternalServerError = 500"

definition post_api_books :: "state \<Rightarrow> BookRequest option \<Rightarrow> response \<times> state" where
  "post_api_books st bound =
     (case bound of
        None \<Rightarrow> (JSON StatusBadRequest [(''error'', ''Invalid request body'')], st)
      | Some bookReq \<Rightarrow>
          if Title bookReq = [] \<or> Author bookReq = []
          then (JSON StatusBadRequest [(''error'', ''Title and author are required'')], st)
          else
            (case createBook st bookReq of
               (Some err, st') \<Rightarrow>
                 if Error err = ''book already exists''
                 then (JSON StatusConflict [(''error'', ''Book already exists'')], st')
                 else (JSON StatusInternalServerError [(''error'', ''Failed to create book'')], st')
             | (None, st') \<Rightarrow>
                 (JSON StatusCreated [(''message'', ''Book created successfully'')], st')))"

definition put_api_books :: "state \<Rightarrow> string \<Rightarrow> BookRequest option \<Rightarrow> response \<times> state" where
  "put_api_books st id' bound =
     (case bound of
        None \<Rightarrow> (JSON StatusBadRequest [(''error'', ''Invalid request body'')], st)
      | Some bookReq \<Rightarrow>
          if Title bookReq = [] \<or> Author bookReq = []
          then (JSON StatusBadRequest [(''error'', ''Title and author are required'')], st)
          else
            (case updateBook st id' bookReq of
               (Some err, st') \<Rightarrow>
                 if Error err = ''book not found''
                 then (JSON StatusNotFound [(''error'', ''Book not found'')], st')
                 else (JSON StatusInternalServerError [(''error'', ''Failed to update book'')], st')
             | (None, st') \<Rightarrow>
                 (JSON StatusOK [(''message'', ''Book updated successfully'')], st')))"

subsection \<open>The search handler and the store's regular expressions\<close>




















section \<open>Example states\<close>

definition frankenstein :: BookStore where
  "frankenstein =
     \<lparr>BookStore.ID = ''1000001'', BookName = ''Frankenstein'', BookAuthor = ''Mary Shelley'',
      BookISBN = ''978-3-649-64609-9'', BookPages = 280, BookYear = 1818\<rparr>"

definition black_cat :: BookStore where
  "black_cat =
     \<lparr>BookStore.ID = ''1000002'', BookName = ''The Black Cat'', BookAuthor = ''Edgar Allan Poe'',
      BookISBN = ''978-3-99168-238-7'', BookPages = 280, BookYear = 1843\<rparr>"



definition library :: state where
  "library = \<lparr>reachable = True, docs = [frankenstein, black_cat], idCounter = 1000003\<rparr>"

definition empty_store :: state where
  "empty_store = \<lparr>reachable = True, docs = [], idCounter = idCounter_init\<rparr>"

definition raven_request :: BookRequest where
  "raven_request =
     \<lparr>BookRequest.ID = ''1000002'', Title = ''The Raven'', Author = ''Edgar Allan Poe'',
      Pages = ''64'', Edition = ''978-0-00-000000-2'', Year = ''1845''\<rparr>"

definition usher_request :: BookRequest where
  "usher_request =
     \<lparr>BookRequest.ID = [], Title = ''The Fall of the House of Usher'',
      Author = ''Edgar Allan Poe'', Pages = ''about 30'', Edition = ''978-0-00-000000-3'',
      Year = ''MDCCCXXXIX''\<rparr>"

definition marginalia_request :: BookRequest where
  "marginalia_request =
     \<lparr>BookRequest.ID = ''1000010'', Title = ''Marginalia'', Author = ''Edgar Allan Poe'',
      Pages = ''12abc'', Edition = ''978-0-00-000000-4'', Year = ''3.5''\<rparr>"

definition nine_ten :: state where
  "nine_ten =
     \<lparr>reachable = True,
      docs = [frankenstein\<lparr>BookStore.ID := ''9''\<rparr>, black_cat\<lparr>BookStore.ID := ''10''\<rparr>],
      idCounter = idCounter_init\<rparr>"

definition black_cat_request :: BookRequest where
  "black_cat_request =
     \<lparr>BookRequest.ID = ''7'', Title = ''The Black Cat'', Author = ''Edgar Allan Poe'',
      Pages = ''280'', Edition = ''978-3-99168-238-7'', Year = ''1843''\<rparr>"

definition poe_shelf :: state where
  "poe_shelf =
     \<lparr>reachable = True,
      docs = [black_cat, frankenstein\<lparr>BookISBN := []\<rparr>,
              black_cat\<lparr>BookStore.ID := ''1000004'', BookName := ''The Raven''\<rparr>,
              black_cat\<lparr>BookStore.ID := ''1000005'', BookName := []\<rparr>],
      idCounter = 1000006\<rparr>"

definition poe_shelf_renumbered :: state where
  "poe_shelf_renumbered =
     poe_shelf\<lparr>docs :=
       map (\<lambda>b. b\<lparr>BookStore.ID := ''0'', BookPages := 1, BookYear := 2\<rparr>) (docs poe_shelf)\<rparr>"

section \<open>Properties\<close>

subsection \<open>Facts about the driver model\<close>

lemma find_None_iff_no_match: "find P xs = None \<longleftrightarrow> \<not> (\<exists>x\<in>set xs. P x)"
  by (induction xs) auto

lemma count_first_zero_iff: "count_first P xs = 0 \<longleftrightarrow> \<not> (\<exists>x\<in>set xs. P x)"
  by (induction xs) (auto simp: count_first_def)

lemma delete_first_no_match: "\<not> (\<exists>x\<in>set xs. P x) \<Longrightarrow> delete_first P xs = xs"
  by (induction xs) auto

lemma delete_first_split:
  "\<exists>x\<in>set xs. P x \<Longrightarrow>
     \<exists>pre x post. xs = pre @ x # post \<and> P x \<and> \<not> (\<exists>y\<in>set pre. P y) \<and>
       delete_first P xs = pre @ post"
proof (induction xs)
  case Nil
  then show ?case by simp
next
  case (Cons a xs)
  show ?case
  proof (cases "P a")
    case True
    then have "a # xs = [] @ a # xs \<and> P a \<and> \<not> (\<exists>y\<in>set []. P y) \<and>
        delete_first P (a # xs) = [] @ xs"
      by simp
    then show ?thesis by blast
  next
    case False
    with Cons.prems have "\<exists>x\<in>set xs. P x" by simp
    from Cons.IH [OF this] obtain pre x post where
      h: "xs = pre @ x # post" "P x" "\<not> (\<exists>y\<in>set pre. P y)" "delete_first P xs = pre @ post"
      by blast
    with False have "a # xs = (a # pre) @ x # post \<and> P x \<and> \<not> (\<exists>y\<in>set (a # pre). P y) \<and>
        delete_first P (a # xs) = (a # pre) @ post"
      by simp
    then show ?thesis by blast
  qed
qed

subsection \<open>deleteBook and its handler\<close>

lemma deleteBook_unreachable:
  "\<not> reachable st \<Longrightarrow> deleteBook st i = (Some StoreUnavailable, st)"
  by (simp add: deleteBook_def DeleteOne_def)

lemma deleteBook_missing:
  "reachable st \<Longrightarrow> \<not> (\<exists>b\<in>set (docs st). BookStore.ID b = i) \<Longrightarrow>
     deleteBook st i = (Some NotFound, st)"
  by (simp add: deleteBook_def DeleteOne_def count_first_zero_iff delete_first_no_match)

lemma deleteBook_present:
  "reachable st \<Longrightarrow> \<exists>b\<in>set (docs st). BookStore.ID b = i \<Longrightarrow>
     deleteBook st i = (None, st\<lparr>docs := delete_first (\<lambda>b. BookStore.ID b = i) (docs st)\<rparr>)"
  by (simp add: deleteBook_def DeleteOne_def count_first_zero_iff)

text \<open>
  C10.  The handler of \<^verbatim>\<open>DELETE /api/books/:id\<close> answers 204 No Content when no
  document has the id, status 200 with the body \<^verbatim>\<open>{"error": "Failed to delete book"}\<close>
  when the store's delete fails, and status 200 with the success message exactly when
  \<^verbatim>\<open>deleteBook\<close> returned no error.
\<close>

theorem delete_handler_statuses:
  "fst (delete_api_books st i) =
     (if \<not> reachable st then JSON 200 [(''error'', ''Failed to delete book'')]
      else if \<exists>b\<in>set (docs st). BookStore.ID b = i
        then JSON 200 [(''message'', ''Book deleted successfully'')]
      else NoContent 204)
   \<and> (fst (delete_api_books st i) = JSON 200 [(''message'', ''Book deleted successfully'')]
        \<longleftrightarrow> fst (deleteBook st i) = None)"
proof (cases "reachable st")
  case False
  then show ?thesis
    by (simp add: delete_api_books_def deleteBook_unreachable StatusOK_def)
next
  case True
  show ?thesis
  proof (cases "\<exists>b\<in>set (docs st). BookStore.ID b = i")
    case yes: True
    with True show ?thesis
      by (simp add: delete_api_books_def deleteBook_present StatusOK_def)
  next
    case no: False
    with True show ?thesis
      by (simp add: delete_api_books_def deleteBook_missing StatusNoContent_def)
  qed
qed

subsection \<open>updateBook, deleteBook and createBook\<close>

lemma update_first_no_match: "\<not> (\<exists>x\<in>set xs. P x) \<Longrightarrow> update_first P f xs = xs"
  by (induction xs) auto

lemma update_first_split:
  "\<exists>x\<in>set xs. P x \<Longrightarrow>
     \<exists>pre x post. xs = pre @ x # post \<and> P x \<and> \<not> (\<exists>y\<in>set pre. P y) \<and>
       update_first P f xs = pre @ f x # post"
proof (induction xs)
  case Nil
  then show ?case by simp
next
  case (Cons a xs)
  show ?case
  proof (cases "P a")
    case True
    then have "a # xs = [] @ a # xs \<and> P a \<and> \<not> (\<exists>y\<in>set []. P y) \<and>
        update_first P f (a # xs) = [] @ f a # xs"
      by simp
    then show ?thesis by blast
  next
    case False
    with Cons.prems have "\<exists>x\<in>set xs. P x" by simp
    from Cons.IH [OF this] obtain pre x post where
      h: "xs = pre @ x # post" "P x" "\<not> (\<exists>y\<in>set pre. P y)"
         "update_first P f xs = pre @ f x # post"
      by blast
    with False have "a # xs = (a # pre) @ x # post \<and> P x \<and> \<not> (\<exists>y\<in>set (a # pre). P y) \<and>
        update_first P f (a # xs) = (a # pre) @ f x # post"
      by simp
    then show ?thesis by blast
  qed
qed

lemma map_update_first_invariant:
  "(\<And>x. g (f x) = g x) \<Longrightarrow> map g (update_first P f xs) = map g xs"
  by (induction xs) auto

lemma filter_delete_first: "filter P (delete_first P xs) = tl (filter P xs)"
  by (induction xs) auto

lemma set_delete_first_subset: "set (delete_first P xs) \<subseteq> set xs"
  by (induction xs) auto

lemma distinct_map_delete_first:
  "distinct (map g xs) \<Longrightarrow> distinct (map g (delete_first P xs))"
proof (induction xs)
  case Nil
  then show ?case by simp
next
  case (Cons a xs)
  then show ?case
    using set_delete_first_subset [of P xs] by (auto simp: image_iff)
qed

lemma at_most_one_no_match_after:
  assumes "length (filter P xs) \<le> 1"
  shows "\<not> (\<exists>x\<in>set (delete_first P xs). P x)"
proof -
  have "length (filter P (delete_first P xs)) = 0"
    using assms by (simp add: filter_delete_first)
  then show ?thesis
    by (simp add: filter_empty_conv)
qed

lemma updateBook_unreachable:
  "\<not> reachable st \<Longrightarrow> updateBook st i r = (Some StoreUnavailable, st)"
  by (simp add: updateBook_def UpdateOne_def)

lemma updateBook_missing:
  "reachable st \<Longrightarrow> \<not> (\<exists>b\<in>set (docs st). BookStore.ID b = i) \<Longrightarrow>
     updateBook st i r = (Some NotFound, st)"
  by (simp add: updateBook_def UpdateOne_def count_first_zero_iff update_first_no_match)

lemma updateBook_present:
  "reachable st \<Longrightarrow> \<exists>b\<in>set (docs st). BookStore.ID b = i \<Longrightarrow>
     updateBook st i r =
       (None, st\<lparr>docs := update_first (\<lambda>b. BookStore.ID b = i)
          (\<lambda>b. b\<lparr>BookName := Title r, BookAuthor := Author r, BookISBN := Edition r,
                 BookPages := scan_or_zero (Pages r), BookYear := scan_or_zero (Year r)\<rparr>)
          (docs st)\<rparr>)"
  by (simp add: updateBook_def UpdateOne_def count_first_zero_iff)

text \<open>
  C4.  While the store is reachable, \<^verbatim>\<open>updateBook\<close> returns "book not found" and changes
  nothing when no document has the id.  Otherwise it succeeds, and the first document
  with that id is replaced by the document with the same \<^verbatim>\<open>ID\<close> and with title, author,
  ISBN, pages and year taken from the request, whatever they were before; pages and year
  are the scanned numbers, 0 for an empty string.  Every other document is untouched.
\<close>

theorem updateBook_overwrites_or_not_found:
  assumes "reachable st"
  shows "(if \<exists>b\<in>set (docs st). BookStore.ID b = i
          then \<exists>pre b post. docs st = pre @ b # post \<and> BookStore.ID b = i \<and>
                 \<not> (\<exists>y\<in>set pre. BookStore.ID y = i) \<and>
                 updateBook st i r =
                   (None, st\<lparr>docs := pre @
                      \<lparr>BookStore.ID = i, BookName = Title r, BookAuthor = Author r,
                       BookISBN = Edition r, BookPages = scan_or_zero (Pages r),
                       BookYear = scan_or_zero (Year r)\<rparr> # post\<rparr>)
          else updateBook st i r = (Some NotFound, st))
         \<and> scan_or_zero [] = 0"
proof (cases "\<exists>b\<in>set (docs st). BookStore.ID b = i")
  case True
  let ?f = "\<lambda>b. b\<lparr>BookName := Title r, BookAuthor := Author r, BookISBN := Edition r,
                 BookPages := scan_or_zero (Pages r), BookYear := scan_or_zero (Year r)\<rparr>"
  from update_first_split [OF True, of ?f] obtain pre b post where
    h: "docs st = pre @ b # post" "BookStore.ID b = i" "\<not> (\<exists>y\<in>set pre. BookStore.ID y = i)"
       "update_first (\<lambda>b. BookStore.ID b = i) ?f (docs st) = pre @ ?f b # post"
    by blast
  have "?f b = \<lparr>BookStore.ID = i, BookName = Title r, BookAuthor = Author r,
                       BookISBN = Edition r, BookPages = scan_or_zero (Pages r),
                       BookYear = scan_or_zero (Year r)\<rparr>"
    using h(2) by simp
  with h updateBook_present [OF assms True, of r] have
    "docs st = pre @ b # post \<and> BookStore.ID b = i \<and>
                 \<not> (\<exists>y\<in>set pre. BookStore.ID y = i) \<and>
                 updateBook st i r =
                   (None, st\<lparr>docs := pre @
                      \<lparr>BookStore.ID = i, BookName = Title r, BookAuthor = Author r,
                       BookISBN = Edition r, BookPages = scan_or_zero (Pages r),
                       BookYear = scan_or_zero (Year r)\<rparr> # post\<rparr>)"
    by simp
  then have "\<exists>pre b post. docs st = pre @ b # post \<and> BookStore.ID b = i \<and>
                 \<not> (\<exists>y\<in>set pre. BookStore.ID y = i) \<and>
                 updateBook st i r =
                   (None, st\<lparr>docs := pre @
                      \<lparr>BookStore.ID = i, BookName = Title r, BookAuthor = Author r,
                       BookISBN = Edition r, BookPages = scan_or_zero (Pages r),
                       BookYear = scan_or_zero (Year r)\<rparr> # post\<rparr>)"
    by blast
  with True show ?thesis by (simp add: scan_or_zero_def)
next
  case False
  with updateBook_missing [OF assms False] show ?thesis by (simp add: scan_or_zero_def)
qed

text \<open>
  C5, amended.  While the store is reachable and at most one document has the id:
  \<^verbatim>\<open>deleteBook\<close> returns "book not found" and changes nothing when no document has the
  id; otherwise it succeeds and removes that document, and a second call with the same
  id returns "book not found" and leaves the store as it is.
\<close>

theorem deleteBook_removes_then_not_found:
  assumes "reachable st" and "length (filter (\<lambda>b. BookStore.ID b = i) (docs st)) \<le> 1"
  shows "if \<exists>b\<in>set (docs st). BookStore.ID b = i
         then \<exists>pre b post. docs st = pre @ b # post \<and> BookStore.ID b = i \<and>
                deleteBook st i = (None, st\<lparr>docs := pre @ post\<rparr>) \<and>
                deleteBook (st\<lparr>docs := pre @ post\<rparr>) i = (Some NotFound, st\<lparr>docs := pre @ post\<rparr>)
         else deleteBook st i = (Some NotFound, st)"
proof (cases "\<exists>b\<in>set (docs st). BookStore.ID b = i")
  case True
  from delete_first_split [OF True] obtain pre b post where
    h: "docs st = pre @ b # post" "BookStore.ID b = i"
       "delete_first (\<lambda>b. BookStore.ID b = i) (docs st) = pre @ post"
    by blast
  have first: "deleteBook st i = (None, st\<lparr>docs := pre @ post\<rparr>)"
    using deleteBook_present [OF assms(1) True] h(3) by simp
  have "\<not> (\<exists>x\<in>set (pre @ post). BookStore.ID x = i)"
    using at_most_one_no_match_after [OF assms(2)] h(3) by simp
  then have second:
    "deleteBook (st\<lparr>docs := pre @ post\<rparr>) i = (Some NotFound, st\<lparr>docs := pre @ post\<rparr>)"
    using deleteBook_missing [of "st\<lparr>docs := pre @ post\<rparr>" i] assms(1) by simp
  from h first second have "\<exists>pre b post. docs st = pre @ b # post \<and> BookStore.ID b = i \<and>
                deleteBook st i = (None, st\<lparr>docs := pre @ post\<rparr>) \<and>
                deleteBook (st\<lparr>docs := pre @ post\<rparr>) i = (Some NotFound, st\<lparr>docs := pre @ post\<rparr>)"
    by blast
  with True show ?thesis by simp
next
  case False
  with deleteBook_missing [OF assms(1) False] show ?thesis by simp
qed


lemma getNextID_keeps_collection:
  "docs (snd (getNextID st)) = docs st" "reachable (snd (getNextID st)) = reachable st"
  by (simp_all add: getNextID_def Let_def split: sum.splits list.splits option.splits)

lemma FindOne_found_iff:
  "(case FindOne st P of Inl err \<Rightarrow> False | Inr result \<Rightarrow> True) \<longleftrightarrow>
     reachable st \<and> (\<exists>d\<in>set (docs st). P d)"
proof -
  have "find P (docs st) = None \<longleftrightarrow> \<not> (\<exists>d\<in>set (docs st). P d)"
    by (rule find_None_iff_no_match)
  then show ?thesis
    by (cases "find P (docs st)") (simp_all add: FindOne_def)
qed

lemma bookExists_iff:
  "bookExists st book \<longleftrightarrow>
     reachable st \<and>
     (\<exists>d\<in>set (docs st). BookName d = BookName book \<and> BookAuthor d = BookAuthor book \<and>
        BookYear d = BookYear book \<and> BookPages d = BookPages book \<and>
        BookISBN d = BookISBN book)"
  unfolding bookExists_def by (rule FindOne_found_iff)

lemma createBook_result:
  "createBook st r =
     (let st1 = (if BookRequest.ID r = [] then snd (getNextID st) else st);
          book = \<lparr>BookStore.ID = (if BookRequest.ID r = [] then fst (getNextID st) else BookRequest.ID r),
                  BookName = Title r, BookAuthor = Author r, BookISBN = Edition r,
                  BookPages = scan_or_zero (Pages r), BookYear = scan_or_zero (Year r)\<rparr>
      in if \<not> reachable st then (Some StoreUnavailable, st1)
         else if \<exists>d\<in>set (docs st). BookName d = Title r \<and> BookAuthor d = Author r \<and>
                   BookYear d = scan_or_zero (Year r) \<and> BookPages d = scan_or_zero (Pages r) \<and>
                   BookISBN d = Edition r
           then (Some DuplicateRecord, st1)
         else (None, st1\<lparr>docs := docs st @ [book]\<rparr>))"
  by (cases "getNextID st")
     (use getNextID_keeps_collection [of st] in
       \<open>auto simp add: createBook_def Let_def bookExists_iff InsertOne_def\<close>)

text \<open>
  C1.  While the store is reachable, \<^verbatim>\<open>createBook\<close> returns "book already exists" if and
  only if some stored document agrees with the candidate on title, author, year, pages
  and ISBN, and the documents are then unchanged; otherwise it returns no error and the
  candidate is appended to the collection.  The candidate's id is the request's id, or
  the id \<^verbatim>\<open>getNextID\<close> allocates when the request has none.
\<close>

theorem createBook_duplicate_iff_match:
  assumes "reachable st"
  shows "(fst (createBook st r) = Some DuplicateRecord \<longleftrightarrow>
            (\<exists>d\<in>set (docs st). BookName d = Title r \<and> BookAuthor d = Author r \<and>
               BookYear d = scan_or_zero (Year r) \<and> BookPages d = scan_or_zero (Pages r) \<and>
               BookISBN d = Edition r))
       \<and> (fst (createBook st r) = Some DuplicateRecord \<longrightarrow>
            docs (snd (createBook st r)) = docs st)
       \<and> (fst (createBook st r) \<noteq> Some DuplicateRecord \<longrightarrow>
            fst (createBook st r) = None \<and>
            docs (snd (createBook st r)) =
              docs st @
                [\<lparr>BookStore.ID =
                    (if BookRequest.ID r = [] then fst (getNextID st) else BookRequest.ID r),
                  BookName = Title r, BookAuthor = Author r, BookISBN = Edition r,
                  BookPages = scan_or_zero (Pages r), BookYear = scan_or_zero (Year r)\<rparr>])"
  using assms getNextID_keeps_collection [of st]
  by (simp add: createBook_result Let_def)

text \<open>
  C3, amended.  From a store with pairwise distinct ids, \<^verbatim>\<open>updateBook\<close> and
  \<^verbatim>\<open>deleteBook\<close> always leave the ids pairwise distinct.  \<^verbatim>\<open>createBook\<close> leaves them
  distinct exactly when it fails or the candidate's id is not yet in the store: the
  code compares the five other fields and never the id.
\<close>

theorem id_uniqueness_preserved_except_insert:
  assumes "distinct (map BookStore.ID (docs st))"
  shows "distinct (map BookStore.ID (docs (snd (updateBook st i r))))
       \<and> distinct (map BookStore.ID (docs (snd (deleteBook st i))))
       \<and> (distinct (map BookStore.ID (docs (snd (createBook st r)))) \<longleftrightarrow>
            fst (createBook st r) \<noteq> None \<or>
            (if BookRequest.ID r = [] then fst (getNextID st) else BookRequest.ID r)
              \<notin> BookStore.ID ` set (docs st))"
proof -
  have u: "distinct (map BookStore.ID (docs (snd (updateBook st i r))))"
    using assms
    by (simp add: updateBook_def UpdateOne_def Let_def map_update_first_invariant)
  have d: "distinct (map BookStore.ID (docs (snd (deleteBook st i))))"
    using assms
    by (simp add: deleteBook_def DeleteOne_def distinct_map_delete_first)
  have c: "distinct (map BookStore.ID (docs (snd (createBook st r)))) \<longleftrightarrow>
            fst (createBook st r) \<noteq> None \<or>
            (if BookRequest.ID r = [] then fst (getNextID st) else BookRequest.ID r)
              \<notin> BookStore.ID ` set (docs st)"
    using assms getNextID_keeps_collection [of st]
    by (simp add: createBook_result Let_def)
  from u d c show ?thesis by blast
qed


lemmas scan_eval =
  scan_or_zero_def Sscanf_d_def ParseInt_def decimal_def digit_val_def is_digit_def
  isSpace_width_def space_encodings_def

lemmas example_defs =
  library_def frankenstein_def black_cat_def raven_request_def black_cat_request_def

text \<open>
  The theorem of C1 on the example library: a request that repeats a stored book is
  refused, and a new book is appended.
\<close>

theorem createBook_duplicate_iff_match_witness:
  "reachable library
   \<and> fst (createBook library black_cat_request) = Some DuplicateRecord
   \<and> docs (snd (createBook library black_cat_request)) = docs library
   \<and> fst (createBook library raven_request) = None
   \<and> docs (snd (createBook library raven_request)) =
       [frankenstein, black_cat,
        \<lparr>BookStore.ID = ''1000002'', BookName = ''The Raven'', BookAuthor = ''Edgar Allan Poe'',
         BookISBN = ''978-0-00-000000-2'', BookPages = 64, BookYear = 1845\<rparr>]"
  using createBook_duplicate_iff_match [of library black_cat_request]
        createBook_duplicate_iff_match [of library raven_request]
  by (simp add: example_defs scan_eval)

text \<open>
  The theorem of C4 on the example library: an update of the second book, and an update
  of an id that no book has.
\<close>

theorem updateBook_overwrites_or_not_found_witness:
  "reachable library
   \<and> updateBook library ''1000002'' raven_request =
       (None, library\<lparr>docs := [frankenstein,
          \<lparr>BookStore.ID = ''1000002'', BookName = ''The Raven'', BookAuthor = ''Edgar Allan Poe'',
           BookISBN = ''978-0-00-000000-2'', BookPages = 64, BookYear = 1845\<rparr>]\<rparr>)
   \<and> updateBook library ''42'' raven_request = (Some NotFound, library)"
proof -
  have r: "reachable library" by (simp add: library_def)
  have yes: "\<exists>b\<in>set (docs library). BookStore.ID b = ''1000002''"
    by (simp add: example_defs)
  have no: "\<not> (\<exists>b\<in>set (docs library). BookStore.ID b = ''42'')"
    by (simp add: example_defs)
  from updateBook_overwrites_or_not_found [OF r, of "''1000002''" raven_request] yes
  obtain pre b post where
    h: "docs library = pre @ b # post" "BookStore.ID b = ''1000002''"
       "\<not> (\<exists>y\<in>set pre. BookStore.ID y = ''1000002'')"
       "updateBook library ''1000002'' raven_request =
          (None, library\<lparr>docs := pre @
             \<lparr>BookStore.ID = ''1000002'', BookName = Title raven_request,
              BookAuthor = Author raven_request, BookISBN = Edition raven_request,
              BookPages = scan_or_zero (Pages raven_request),
              BookYear = scan_or_zero (Year raven_request)\<rparr> # post\<rparr>)"
    by auto
  from h(1,2,3) have "pre = [frankenstein] \<and> post = []"
    by (auto simp: example_defs Cons_eq_append_conv append_eq_Cons_conv)
  with h(4) have one: "updateBook library ''1000002'' raven_request =
       (None, library\<lparr>docs := [frankenstein,
          \<lparr>BookStore.ID = ''1000002'', BookName = ''The Raven'', BookAuthor = ''Edgar Allan Poe'',
           BookISBN = ''978-0-00-000000-2'', BookPages = 64, BookYear = 1845\<rparr>]\<rparr>)"
    by (simp add: raven_request_def scan_eval)
  from updateBook_overwrites_or_not_found [OF r, of "''42''" raven_request] no
  have two: "updateBook library ''42'' raven_request = (Some NotFound, library)"
    by simp
  from r one two show ?thesis by simp
qed

subsection \<open>Evaluation on the example states\<close>

lemmas id_eval =
  getNextID_def Aggregate_sort_id_desc_limit1_def ParseInt_def decimal_def digit_val_def
  is_digit_def FormatInt_def wrap64_def string_of_nat.simps digit_char_def


text \<open>
  The theorem of C5 on the example library.
\<close>

theorem deleteBook_removes_then_not_found_witness:
  "reachable library
   \<and> length (filter (\<lambda>b. BookStore.ID b = ''1000001'') (docs library)) \<le> 1
   \<and> deleteBook library ''1000001'' = (None, library\<lparr>docs := [black_cat]\<rparr>)
   \<and> deleteBook (library\<lparr>docs := [black_cat]\<rparr>) ''1000001'' =
       (Some NotFound, library\<lparr>docs := [black_cat]\<rparr>)"
proof -
  have r: "reachable library" by (simp add: library_def)
  have u: "length (filter (\<lambda>b. BookStore.ID b = ''1000001'') (docs library)) \<le> 1"
    by (simp add: example_defs)
  have yes: "\<exists>b\<in>set (docs library). BookStore.ID b = ''1000001''"
    by (simp add: example_defs)
  from deleteBook_removes_then_not_found [OF r u] yes
  obtain pre b post where
    h: "docs library = pre @ b # post" "BookStore.ID b = ''1000001''"
       "deleteBook library ''1000001'' = (None, library\<lparr>docs := pre @ post\<rparr>)"
       "deleteBook (library\<lparr>docs := pre @ post\<rparr>) ''1000001'' =
          (Some NotFound, library\<lparr>docs := pre @ post\<rparr>)"
    by auto
  from h(1,2) have "pre = [] \<and> post = [black_cat]"
    by (auto simp: example_defs Cons_eq_append_conv append_eq_Cons_conv)
  with h(3,4) r u show ?thesis by simp
qed

text \<open>
  C5 as stated fails where two documents share an id: after a second book was created
  under the id of a stored one, deleting that id succeeds twice.
\<close>

theorem deleteBook_twice_succeeds_on_shared_id:
  "fst (createBook library raven_request) = None
   \<and> fst (deleteBook (snd (createBook library raven_request)) ''1000002'') = None
   \<and> fst (deleteBook (snd (deleteBook (snd (createBook library raven_request)) ''1000002''))
          ''1000002'') = None
   \<and> docs (snd (deleteBook (snd (deleteBook (snd (createBook library raven_request))
          ''1000002'')) ''1000002'')) = [frankenstein]"
  by (simp add: createBook_result Let_def example_defs scan_eval deleteBook_def DeleteOne_def
      count_first_def)

text \<open>
  The theorem of C3 on the example library.
\<close>

theorem id_uniqueness_preserved_except_insert_witness:
  "distinct (map BookStore.ID (docs library))
   \<and> distinct (map BookStore.ID (docs (snd (updateBook library ''1000002'' raven_request))))
   \<and> distinct (map BookStore.ID (docs (snd (deleteBook library ''1000001''))))
   \<and> distinct (map BookStore.ID (docs (snd (createBook library usher_request))))
   \<and> fst (createBook library usher_request) = None"
proof -
  have d: "distinct (map BookStore.ID (docs library))"
    by (simp add: example_defs)
  have fresh: "fst (getNextID library) \<notin> BookStore.ID ` set (docs library)"
    by (simp add: example_defs id_eval)
  have ok: "fst (createBook library usher_request) = None"
    by (simp add: createBook_result Let_def example_defs usher_request_def scan_eval)
  from id_uniqueness_preserved_except_insert [OF d, of "''1000002''" raven_request]
       id_uniqueness_preserved_except_insert [OF d, of "''1000001''" usher_request]
       fresh d ok
  show ?thesis by (simp add: usher_request_def)
qed

text \<open>
  C3 as stated fails: a successful \<^verbatim>\<open>createBook\<close> whose request carries the id of a
  stored book leaves two documents with that id.
\<close>

theorem insert_repeats_existing_id:
  "distinct (map BookStore.ID (docs library))
   \<and> fst (createBook library raven_request) = None
   \<and> map BookStore.ID (docs (snd (createBook library raven_request))) =
       [''1000001'', ''1000002'', ''1000002'']
   \<and> \<not> distinct (map BookStore.ID (docs (snd (createBook library raven_request))))"
  by (simp add: createBook_result Let_def example_defs scan_eval)

text \<open>
  C2 at the failing input.  With the ids "9" and "10" in the store, the descending sort
  on the string field puts "9" first, and \<^verbatim>\<open>getNextID\<close> returns "10", which is taken;
  the numerically largest id is 10 and the claim asks for "11".
\<close>

theorem getNextID_takes_greatest_string:
  "map BookStore.ID (docs nine_ten) = [''9'', ''10'']
   \<and> fst (getNextID nine_ten) = ''10''"
  by (simp add: nine_ten_def frankenstein_def black_cat_def idCounter_init_def id_eval)

text \<open>
  On the empty store of a fresh process the first call returns "1000000" and the next
  call "1000001".
\<close>

lemma getNextID_empty_store:
  "fst (getNextID empty_store) = ''1000000''
   \<and> fst (getNextID (snd (getNextID empty_store))) = ''1000001''"
  by (simp add: empty_store_def idCounter_init_def id_eval)

text \<open>
  C6 at the failing input.  After one book is created in the empty store,
  \<^verbatim>\<open>findAllBooks\<close> returns its id, title, author, ISBN and pages but not its year, which
  the store holds and \<^verbatim>\<open>getBookByID\<close> returns.
\<close>

theorem findAllBooks_omits_BookYear:
  "fst (createBook empty_store raven_request) = None
   \<and> docs (snd (createBook empty_store raven_request)) =
       [\<lparr>BookStore.ID = ''1000002'', BookName = ''The Raven'', BookAuthor = ''Edgar Allan Poe'',
         BookISBN = ''978-0-00-000000-2'', BookPages = 64, BookYear = 1845\<rparr>]
   \<and> findAllBooks (snd (createBook empty_store raven_request)) =
       Some [[(''ID'', Str ''1000002''), (''BookName'', Str ''The Raven''),
              (''BookAuthor'', Str ''Edgar Allan Poe''),
              (''BookISBN'', Str ''978-0-00-000000-2''), (''BookPages'', Num 64)]]
   \<and> getBookByID (snd (createBook empty_store raven_request)) ''1000002'' =
       Inr [(''ID'', Str ''1000002''), (''BookName'', Str ''The Raven''),
            (''BookAuthor'', Str ''Edgar Allan Poe''),
            (''BookISBN'', Str ''978-0-00-000000-2''), (''BookPages'', Num 64),
            (''BookYear'', Num 1845)]"
  by (simp add: createBook_result Let_def empty_store_def raven_request_def scan_eval
      findAllBooks_def Find_def getBookByID_def FindOne_def)

subsection \<open>getAuthors\<close>

lemma authorBooks_loop_bucket:
  "authorBooks_loop rs m a =
     (let ts = map BookName
                 (filter (\<lambda>b. BookAuthor b = a \<and> \<not> (BookISBN b = [] \<or> BookName b = [])) rs)
      in if ts = [] then m a
         else Some ((case m a of None \<Rightarrow> [] | Some books \<Rightarrow> books) @ ts))"
proof (induction rs arbitrary: m)
  case Nil
  then show ?case by simp
next
  case (Cons r rs)
  show ?case
  proof (cases "BookISBN r = [] \<or> BookName r = []")
    case True
    then show ?thesis using Cons.IH [of m] by auto
  next
    case False
    define old where "old = (case m (BookAuthor r) of None \<Rightarrow> [] | Some books \<Rightarrow> books)"
    define m' where "m' = m(BookAuthor r \<mapsto> old @ [BookName r])"
    have step: "authorBooks_loop (r # rs) m a = authorBooks_loop rs m' a"
      using False by (simp add: m'_def old_def)
    show ?thesis
    proof (cases "BookAuthor r = a")
      case same: True
      then have "m' a = Some (old @ [BookName r])"
        by (simp add: m'_def)
      then show ?thesis
        unfolding step Cons.IH [of m'] using False same
        by (simp add: Let_def old_def)
    next
      case other: False
      then have "m' a = m a"
        by (simp add: m'_def)
      then show ?thesis
        unfolding step Cons.IH [of m'] using False other
        by (simp add: Let_def)
    qed
  qed
qed

lemma titles_depend_on_three_fields:
  "map BookName (filter (\<lambda>b. BookAuthor b = a \<and> \<not> (BookISBN b = [] \<or> BookName b = [])) rs) =
   map (\<lambda>(au, ti, isbn). ti)
     (filter (\<lambda>(au, ti, isbn). au = a \<and> \<not> (isbn = [] \<or> ti = []))
        (map (\<lambda>b. (BookAuthor b, BookName b, BookISBN b)) rs))"
  by (induction rs) auto

text \<open>
  C9.  While the store is reachable, \<^verbatim>\<open>getAuthors\<close> returns a map in which the bucket of
  an author holds the titles of the documents of that author that have a non-empty
  ISBN and a non-empty title, in the order of the scan, and an author with no such
  document has no bucket.  Two stores whose documents agree, in order, on author, title
  and ISBN give the same result.
\<close>

theorem getAuthors_buckets:
  assumes "reachable st"
  shows "(\<exists>m. getAuthors st = Some m \<and>
            (\<forall>a. m a =
               (let ts = map BookName
                      (filter (\<lambda>b. BookAuthor b = a \<and> \<not> (BookISBN b = [] \<or> BookName b = []))
                         (docs st))
                in if ts = [] then None else Some ts)))
       \<and> (\<forall>st'. reachable st' \<and>
              map (\<lambda>b. (BookAuthor b, BookName b, BookISBN b)) (docs st') =
              map (\<lambda>b. (BookAuthor b, BookName b, BookISBN b)) (docs st) \<longrightarrow>
              getAuthors st' = getAuthors st)"
proof -
  have g: "getAuthors s = Some (authorBooks_loop (docs s) Map.empty)" if "reachable s" for s
    using that by (simp add: getAuthors_def Find_def)
  have one: "\<exists>m. getAuthors st = Some m \<and>
            (\<forall>a. m a =
               (let ts = map BookName
                      (filter (\<lambda>b. BookAuthor b = a \<and> \<not> (BookISBN b = [] \<or> BookName b = []))
                         (docs st))
                in if ts = [] then None else Some ts))"
    using g [OF assms] by (simp add: authorBooks_loop_bucket Let_def)
  have two: "getAuthors st' = getAuthors st"
    if r: "reachable st'" and
       e: "map (\<lambda>b. (BookAuthor b, BookName b, BookISBN b)) (docs st') =
           map (\<lambda>b. (BookAuthor b, BookName b, BookISBN b)) (docs st)" for st'
  proof -
    have "authorBooks_loop (docs st') Map.empty a = authorBooks_loop (docs st) Map.empty a" for a
      unfolding authorBooks_loop_bucket titles_depend_on_three_fields e ..
    then have "authorBooks_loop (docs st') Map.empty = authorBooks_loop (docs st) Map.empty"
      by (rule ext)
    then show ?thesis using g [OF r] g [OF assms] by simp
  qed
  from one two show ?thesis by blast
qed

text \<open>
  The theorem of C9 on a shelf with two qualifying books of one author, one book without
  ISBN and one without title, and on the same shelf with other ids, pages and years.
\<close>

theorem getAuthors_buckets_witness:
  "reachable poe_shelf
   \<and> (\<exists>m. getAuthors poe_shelf = Some m
          \<and> m ''Edgar Allan Poe'' = Some [''The Black Cat'', ''The Raven'']
          \<and> m ''Mary Shelley'' = None)
   \<and> getAuthors poe_shelf_renumbered = getAuthors poe_shelf"
proof -
  have r: "reachable poe_shelf" by (simp add: poe_shelf_def)
  from getAuthors_buckets [OF r] obtain m where
    m: "getAuthors poe_shelf = Some m"
       "\<And>a. m a =
               (let ts = map BookName
                      (filter (\<lambda>b. BookAuthor b = a \<and> \<not> (BookISBN b = [] \<or> BookName b = []))
                         (docs poe_shelf))
                in if ts = [] then None else Some ts)"
    by blast
  have p: "m ''Edgar Allan Poe'' = Some [''The Black Cat'', ''The Raven'']"
    unfolding m(2) by (simp add: poe_shelf_def example_defs)
  have s: "m ''Mary Shelley'' = None"
    unfolding m(2) by (simp add: poe_shelf_def example_defs)
  have same: "reachable poe_shelf_renumbered \<and>
       map (\<lambda>b. (BookAuthor b, BookName b, BookISBN b)) (docs poe_shelf_renumbered) =
       map (\<lambda>b. (BookAuthor b, BookName b, BookISBN b)) (docs poe_shelf)"
    by (simp add: poe_shelf_renumbered_def poe_shelf_def)
  from getAuthors_buckets [OF r] have
    "reachable poe_shelf_renumbered \<and>
       map (\<lambda>b. (BookAuthor b, BookName b, BookISBN b)) (docs poe_shelf_renumbered) =
       map (\<lambda>b. (BookAuthor b, BookName b, BookISBN b)) (docs poe_shelf) \<longrightarrow>
     getAuthors poe_shelf_renumbered = getAuthors poe_shelf"
    by blast
  with same have k: "getAuthors poe_shelf_renumbered = getAuthors poe_shelf"
    by simp
  from r m(1) p s k show ?thesis by simp
qed

subsection \<open>The search handler\<close>







































subsection \<open>Numbers that do not scan\<close>

lemma scan_or_zero_unparsable: "Sscanf_d s = None \<Longrightarrow> scan_or_zero s = 0"
  by (simp add: scan_or_zero_def)

lemma scan_or_zero_literal_zero: "scan_or_zero ''0'' = 0"
  by (simp add: scan_eval)

lemma createBook_reads_scanned_numbers:
  assumes "BookRequest.ID r' = BookRequest.ID r" "Title r' = Title r" "Author r' = Author r"
    "Edition r' = Edition r" "scan_or_zero (Pages r') = scan_or_zero (Pages r)"
    "scan_or_zero (Year r') = scan_or_zero (Year r)"
  shows "createBook st r' = createBook st r"
  using assms by (simp add: createBook_def)

lemma updateBook_reads_scanned_numbers:
  assumes "Title r' = Title r" "Author r' = Author r"
    "Edition r' = Edition r" "scan_or_zero (Pages r') = scan_or_zero (Pages r)"
    "scan_or_zero (Year r') = scan_or_zero (Year r)"
  shows "updateBook st i r' = updateBook st i r"
  using assms by (simp add: updateBook_def)

lemma createBook_success_last:
  assumes "fst (createBook st r) = None"
  shows "BookPages (last (docs (snd (createBook st r)))) = scan_or_zero (Pages r)
       \<and> BookYear (last (docs (snd (createBook st r)))) = scan_or_zero (Year r)"
proof -
  let ?dup = "\<exists>d\<in>set (docs st). BookName d = Title r \<and> BookAuthor d = Author r \<and>
                   BookYear d = scan_or_zero (Year r) \<and> BookPages d = scan_or_zero (Pages r) \<and>
                   BookISBN d = Edition r"
  have r: "reachable st"
    using assms by (cases "reachable st") (simp_all add: createBook_result Let_def)
  have n: "\<not> ?dup"
    using assms r by (cases ?dup) (simp_all add: createBook_result Let_def)
  show ?thesis
    using r n by (auto simp: createBook_result Let_def)
qed

lemma update_first_changed:
  "\<exists>x\<in>set xs. P x \<Longrightarrow> (\<And>x. P x \<Longrightarrow> P (f x)) \<Longrightarrow>
     \<exists>y\<in>set (update_first P f xs). P y \<and> (\<exists>x. y = f x)"
  by (induction xs) auto

lemma updateBook_success_doc:
  assumes "fst (updateBook st i r) = None"
  shows "\<exists>b\<in>set (docs (snd (updateBook st i r))).
           BookStore.ID b = i \<and> BookPages b = scan_or_zero (Pages r) \<and>
           BookYear b = scan_or_zero (Year r)"
proof -
  let ?f = "\<lambda>b. b\<lparr>BookName := Title r, BookAuthor := Author r, BookISBN := Edition r,
                 BookPages := scan_or_zero (Pages r), BookYear := scan_or_zero (Year r)\<rparr>"
  from assms have r: "reachable st" and m: "\<exists>b\<in>set (docs st). BookStore.ID b = i"
    by (auto simp: updateBook_def UpdateOne_def Let_def count_first_zero_iff
        split: if_splits)
  from update_first_changed [of "docs st" "\<lambda>b. BookStore.ID b = i" ?f] m
  obtain y where "y \<in> set (update_first (\<lambda>b. BookStore.ID b = i) ?f (docs st))"
    "BookStore.ID y = i" "\<exists>x. y = ?f x"
    by auto
  then show ?thesis
    using updateBook_present [OF r m, of r] by auto
qed

text \<open>
  When the scan of the request's pages fails, \<^verbatim>\<open>createBook\<close>, \<^verbatim>\<open>updateBook\<close> and the two
  handlers do exactly what they do for the same request with pages "0".  Where the call
  succeeds, the created document, and the updated document, has 0 pages.  The same
  holds for the year.
\<close>

lemma failed_scan_behaves_as_zero:
  "(Sscanf_d (Pages r) = None \<longrightarrow>
      createBook st r = createBook st (r\<lparr>Pages := ''0''\<rparr>)
      \<and> updateBook st i r = updateBook st i (r\<lparr>Pages := ''0''\<rparr>)
      \<and> post_api_books st (Some r) = post_api_books st (Some (r\<lparr>Pages := ''0''\<rparr>))
      \<and> put_api_books st i (Some r) = put_api_books st i (Some (r\<lparr>Pages := ''0''\<rparr>))
      \<and> (fst (createBook st r) = None \<longrightarrow>
            BookPages (last (docs (snd (createBook st r)))) = 0)
      \<and> (fst (updateBook st i r) = None \<longrightarrow>
            (\<exists>b\<in>set (docs (snd (updateBook st i r))). BookStore.ID b = i \<and> BookPages b = 0)))
 \<and> (Sscanf_d (Year r) = None \<longrightarrow>
      createBook st r = createBook st (r\<lparr>Year := ''0''\<rparr>)
      \<and> updateBook st i r = updateBook st i (r\<lparr>Year := ''0''\<rparr>)
      \<and> post_api_books st (Some r) = post_api_books st (Some (r\<lparr>Year := ''0''\<rparr>))
      \<and> put_api_books st i (Some r) = put_api_books st i (Some (r\<lparr>Year := ''0''\<rparr>))
      \<and> (fst (createBook st r) = None \<longrightarrow>
            BookYear (last (docs (snd (createBook st r)))) = 0)
      \<and> (fst (updateBook st i r) = None \<longrightarrow>
            (\<exists>b\<in>set (docs (snd (updateBook st i r))). BookStore.ID b = i \<and> BookYear b = 0)))"
proof -
  have p: "createBook st r = createBook st (r\<lparr>Pages := ''0''\<rparr>)
      \<and> updateBook st i r = updateBook st i (r\<lparr>Pages := ''0''\<rparr>)
      \<and> post_api_books st (Some r) = post_api_books st (Some (r\<lparr>Pages := ''0''\<rparr>))
      \<and> put_api_books st i (Some r) = put_api_books st i (Some (r\<lparr>Pages := ''0''\<rparr>))
      \<and> (fst (createBook st r) = None \<longrightarrow>
            BookPages (last (docs (snd (createBook st r)))) = 0)
      \<and> (fst (updateBook st i r) = None \<longrightarrow>
            (\<exists>b\<in>set (docs (snd (updateBook st i r))). BookStore.ID b = i \<and> BookPages b = 0))"
    if fail: "Sscanf_d (Pages r) = None"
  proof -
    have z: "scan_or_zero (Pages r) = 0"
      using fail by (rule scan_or_zero_unparsable)
    have c: "createBook st (r\<lparr>Pages := ''0''\<rparr>) = createBook st r"
      by (rule createBook_reads_scanned_numbers) (simp_all add: z scan_or_zero_literal_zero)
    have u: "updateBook st i (r\<lparr>Pages := ''0''\<rparr>) = updateBook st i r"
      by (rule updateBook_reads_scanned_numbers) (simp_all add: z scan_or_zero_literal_zero)
    have po: "post_api_books st (Some r) = post_api_books st (Some (r\<lparr>Pages := ''0''\<rparr>))"
      by (simp add: post_api_books_def c)
    have pu: "put_api_books st i (Some r) = put_api_books st i (Some (r\<lparr>Pages := ''0''\<rparr>))"
      by (simp add: put_api_books_def u)
    have cl: "BookPages (last (docs (snd (createBook st r)))) = 0"
      if "fst (createBook st r) = None"
      using createBook_success_last [OF that] z by simp
    have ul: "\<exists>b\<in>set (docs (snd (updateBook st i r))). BookStore.ID b = i \<and> BookPages b = 0"
      if "fst (updateBook st i r) = None"
      using updateBook_success_doc [OF that] z by auto
    from c u po pu cl ul show ?thesis by simp
  qed
  have y: "createBook st r = createBook st (r\<lparr>Year := ''0''\<rparr>)
      \<and> updateBook st i r = updateBook st i (r\<lparr>Year := ''0''\<rparr>)
      \<and> post_api_books st (Some r) = post_api_books st (Some (r\<lparr>Year := ''0''\<rparr>))
      \<and> put_api_books st i (Some r) = put_api_books st i (Some (r\<lparr>Year := ''0''\<rparr>))
      \<and> (fst (createBook st r) = None \<longrightarrow>
            BookYear (last (docs (snd (createBook st r)))) = 0)
      \<and> (fst (updateBook st i r) = None \<longrightarrow>
            (\<exists>b\<in>set (docs (snd (updateBook st i r))). BookStore.ID b = i \<and> BookYear b = 0))"
    if fail: "Sscanf_d (Year r) = None"
  proof -
    have z: "scan_or_zero (Year r) = 0"
      using fail by (rule scan_or_zero_unparsable)
    have c: "createBook st (r\<lparr>Year := ''0''\<rparr>) = createBook st r"
      by (rule createBook_reads_scanned_numbers) (simp_all add: z scan_or_zero_literal_zero)
    have u: "updateBook st i (r\<lparr>Year := ''0''\<rparr>) = updateBook st i r"
      by (rule updateBook_reads_scanned_numbers) (simp_all add: z scan_or_zero_literal_zero)
    have po: "post_api_books st (Some r) = post_api_books st (Some (r\<lparr>Year := ''0''\<rparr>))"
      by (simp add: post_api_books_def c)
    have pu: "put_api_books st i (Some r) = put_api_books st i (Some (r\<lparr>Year := ''0''\<rparr>))"
      by (simp add: put_api_books_def u)
    have cl: "BookYear (last (docs (snd (createBook st r)))) = 0"
      if "fst (createBook st r) = None"
      using createBook_success_last [OF that] z by simp
    have ul: "\<exists>b\<in>set (docs (snd (updateBook st i r))). BookStore.ID b = i \<and> BookYear b = 0"
      if "fst (updateBook st i r) = None"
      using updateBook_success_doc [OF that] z by auto
    from c u po pu cl ul show ?thesis by simp
  qed
  from p y show ?thesis by blast
qed

text \<open>
  A string that starts with a sign or a digit has no leading space; the scan then reads
  the sign and the run of digits, and nothing behind them.  So a string that
  \<^verbatim>\<open>ParseInt\<close> accepts scans to the same number.
\<close>

lemma no_space_encoding_starts:
  "c \<in> set ''+-0123456789'' \<Longrightarrow> e \<in> set space_encodings \<Longrightarrow> \<not> prefix e (c # cs)"
  by (auto simp: space_encodings_def)

lemma isSpace_width_sign_digit:
  assumes "c \<in> set ''+-0123456789''"
  shows "isSpace_width (c # cs) = 0"
proof -
  have "find (\<lambda>e. prefix e (c # cs)) space_encodings = None"
    using no_space_encoding_starts [OF assms] by (simp add: find_None_iff)
  then show ?thesis by (simp add: isSpace_width_def)
qed

lemma SkipSpace_sign_digit:
  assumes "c \<in> set ''+-0123456789''"
  shows "SkipSpace (c # cs) = Some (c # cs)"
proof -
  from assms have "c \<noteq> CHR 0x0A" by auto
  with isSpace_width_sign_digit [OF assms] show ?thesis by simp
qed

lemma digit_is_sign_digit: "is_digit c \<Longrightarrow> c \<in> set ''+-0123456789''"
  by (auto simp: is_digit_def)

lemma digit_not_sign: "is_digit c \<Longrightarrow> c \<noteq> CHR ''+'' \<and> c \<noteq> CHR ''-''"
  by (auto simp: is_digit_def)

lemma takeWhile_digit_run:
  assumes "list_all is_digit ds" and "rest = [] \<or> \<not> is_digit (hd rest)"
  shows "takeWhile is_digit (ds @ rest) = ds"
proof -
  from assms(2) have "takeWhile is_digit rest = []"
    by (cases rest) auto
  with assms(1) show ?thesis
    by (simp add: takeWhile_append2 list_all_iff)
qed

lemma Sscanf_d_leading_integer:
  assumes "sg = [] \<or> sg = ''+'' \<or> sg = ''-''" and "ds \<noteq> []" and "list_all is_digit ds"
    and "rest = [] \<or> \<not> is_digit (hd rest)"
  shows "Sscanf_d (sg @ ds @ rest) = ParseInt (sg @ ds)"
proof -
  from assms(2) obtain d ds' where ds: "ds = d # ds'" by (cases ds) auto
  with assms(3) have dd: "is_digit d" by simp
  note run = takeWhile_digit_run [OF assms(3,4)]
  from assms(1) consider "sg = []" | "sg = ''+''" | "sg = ''-''" by blast
  then show ?thesis
  proof cases
    case 1
    have "SkipSpace (d # ds' @ rest) = Some (d # ds' @ rest)"
      by (rule SkipSpace_sign_digit [OF digit_is_sign_digit [OF dd]])
    moreover have "takeWhile is_digit (d # ds' @ rest) = d # ds'"
      using run ds by simp
    ultimately show ?thesis
      using 1 ds digit_not_sign [OF dd] by (simp add: Sscanf_d_def)
  next
    case 2
    have "SkipSpace (CHR ''+'' # ds @ rest) = Some (CHR ''+'' # ds @ rest)"
      by (rule SkipSpace_sign_digit) simp
    then show ?thesis
      using 2 run assms(2) by (simp add: Sscanf_d_def)
  next
    case 3
    have "SkipSpace (CHR ''-'' # ds @ rest) = Some (CHR ''-'' # ds @ rest)"
      by (rule SkipSpace_sign_digit) simp
    then show ?thesis
      using 3 run assms(2) by (simp add: Sscanf_d_def)
  qed
qed

lemma ParseInt_shape:
  assumes "ParseInt s = Some v"
  shows "\<exists>sg ds. s = sg @ ds \<and> (sg = [] \<or> sg = ''+'' \<or> sg = ''-'') \<and> ds \<noteq> [] \<and>
           list_all is_digit ds"
proof -
  from assms have ne: "s \<noteq> []"
    by (auto simp: ParseInt_def)
  then obtain c cs where s: "s = c # cs" by (cases s) auto
  show ?thesis
  proof (cases "c = CHR ''+'' \<or> c = CHR ''-''")
    case True
    with assms s have "cs \<noteq> [] \<and> list_all is_digit cs"
      by (auto simp: ParseInt_def Let_def split: if_splits)
    with True s have "s = [c] @ cs \<and> ([c] = [] \<or> [c] = ''+'' \<or> [c] = ''-'') \<and> cs \<noteq> [] \<and>
           list_all is_digit cs"
      by auto
    then show ?thesis by blast
  next
    case False
    with assms s have "list_all is_digit s"
      by (auto simp: ParseInt_def Let_def split: if_splits)
    with ne have "s = [] @ s \<and> ([] = [] \<or> [] = ''+'' \<or> [] = ''-'') \<and> s \<noteq> [] \<and>
           list_all is_digit s"
      by simp
    then show ?thesis by blast
  qed
qed

lemma ParseInt_imp_Sscanf_d:
  assumes "ParseInt s = Some v"
  shows "Sscanf_d s = Some v"
proof -
  from ParseInt_shape [OF assms] obtain sg ds where
    h: "s = sg @ ds" "sg = [] \<or> sg = ''+'' \<or> sg = ''-''" "ds \<noteq> []" "list_all is_digit ds"
    by blast
  from Sscanf_d_leading_integer [OF h(2,3,4), of "[]"] h(1) assms show ?thesis
    by simp
qed

lemma ParseInt_imp_scan_or_zero:
  assumes "ParseInt s = Some v"
  shows "scan_or_zero s = v"
proof -
  from assms have "s \<noteq> []"
    by (auto simp: ParseInt_def)
  with ParseInt_imp_Sscanf_d [OF assms] show ?thesis
    by (simp add: scan_or_zero_def)
qed

lemma Sscanf_d_no_leading_number:
  assumes "t \<noteq> []" and "hd t \<notin> set ''+-0123456789''" and "isSpace_width t = 0"
  shows "Sscanf_d t = None"
proof -
  from assms(1) obtain c cs where t: "t = c # cs" by (cases t) auto
  have "[CHR 0x0A] \<in> set space_encodings"
    by (simp add: space_encodings_def)
  then have "find (\<lambda>e. prefix e (CHR 0x0A # cs)) space_encodings \<noteq> None"
    by (auto simp: find_None_iff)
  then have "isSpace_width (CHR 0x0A # cs) \<noteq> 0"
    by (auto simp: isSpace_width_def find_Some_iff space_encodings_def split: option.splits)
  with assms(3) t have nl: "c \<noteq> CHR 0x0A" by auto
  with assms(3) t have sk: "SkipSpace t = Some (c # cs)" by simp
  from assms(2) t have "\<not> is_digit c" and ns: "c \<noteq> CHR ''+'' \<and> c \<noteq> CHR ''-''"
    by (auto simp: is_digit_def)
  then have "takeWhile is_digit (c # cs) = []" by simp
  with sk ns show ?thesis by (simp add: Sscanf_d_def)
qed

text \<open>
  C8, amended.  A string for pages or year is scanned for a leading integer, and the
  number the scan gives is the number stored; no error comes from the scan.

  When the scan fails, the string is not an integer, the two repository functions and
  the two handlers do exactly what they do for the same request with the field "0",
  and a successful call stores 0.  In every case a successful \<^verbatim>\<open>createBook\<close> or
  \<^verbatim>\<open>updateBook\<close> stores the scanned numbers.  A string that is an integer for
  \<^verbatim>\<open>ParseInt\<close> is stored as that integer.  A string made of an optional sign, a run of
  digits and other text is stored as the integer of sign and digits (0 when that is
  outside the 64-bit range): the text behind the digits is not looked at.  A string that
  starts with neither space, sign nor digit fails to scan.
\<close>

theorem leading_integer_is_stored_else_zero:
  "(Sscanf_d (Pages r) = None \<longrightarrow>
      ParseInt (Pages r) = None
      \<and> createBook st r = createBook st (r\<lparr>Pages := ''0''\<rparr>)
      \<and> updateBook st i r = updateBook st i (r\<lparr>Pages := ''0''\<rparr>)
      \<and> post_api_books st (Some r) = post_api_books st (Some (r\<lparr>Pages := ''0''\<rparr>))
      \<and> put_api_books st i (Some r) = put_api_books st i (Some (r\<lparr>Pages := ''0''\<rparr>))
      \<and> (fst (createBook st r) = None \<longrightarrow>
            BookPages (last (docs (snd (createBook st r)))) = 0)
      \<and> (fst (updateBook st i r) = None \<longrightarrow>
            (\<exists>b\<in>set (docs (snd (updateBook st i r))). BookStore.ID b = i \<and> BookPages b = 0)))
 \<and> (Sscanf_d (Year r) = None \<longrightarrow>
      ParseInt (Year r) = None
      \<and> createBook st r = createBook st (r\<lparr>Year := ''0''\<rparr>)
      \<and> updateBook st i r = updateBook st i (r\<lparr>Year := ''0''\<rparr>)
      \<and> post_api_books st (Some r) = post_api_books st (Some (r\<lparr>Year := ''0''\<rparr>))
      \<and> put_api_books st i (Some r) = put_api_books st i (Some (r\<lparr>Year := ''0''\<rparr>))
      \<and> (fst (createBook st r) = None \<longrightarrow>
            BookYear (last (docs (snd (createBook st r)))) = 0)
      \<and> (fst (updateBook st i r) = None \<longrightarrow>
            (\<exists>b\<in>set (docs (snd (updateBook st i r))). BookStore.ID b = i \<and> BookYear b = 0)))
 \<and> (fst (createBook st r) = None \<longrightarrow>
      BookPages (last (docs (snd (createBook st r)))) = scan_or_zero (Pages r)
      \<and> BookYear (last (docs (snd (createBook st r)))) = scan_or_zero (Year r))
 \<and> (fst (updateBook st i r) = None \<longrightarrow>
      (\<exists>b\<in>set (docs (snd (updateBook st i r))).
          BookStore.ID b = i \<and> BookPages b = scan_or_zero (Pages r) \<and>
          BookYear b = scan_or_zero (Year r)))
 \<and> (ParseInt s = Some v \<longrightarrow> scan_or_zero s = v)
 \<and> ((sg = [] \<or> sg = ''+'' \<or> sg = ''-'') \<and> ds \<noteq> [] \<and> list_all is_digit ds \<and>
      (rest = [] \<or> \<not> is_digit (hd rest)) \<longrightarrow>
      scan_or_zero (sg @ ds @ rest) = (case ParseInt (sg @ ds) of None \<Rightarrow> 0 | Some n \<Rightarrow> n))
 \<and> (t \<noteq> [] \<and> hd t \<notin> set ''+-0123456789'' \<and> isSpace_width t = 0 \<longrightarrow>
      Sscanf_d t = None \<and> scan_or_zero t = 0)"
proof -
  have not_int: "ParseInt x = None" if "Sscanf_d x = None" for x
  proof (cases "ParseInt x")
    case None
    then show ?thesis .
  next
    case (Some n)
    from ParseInt_imp_Sscanf_d [OF Some] that show ?thesis by simp
  qed
  note z = failed_scan_behaves_as_zero [of r st i]
  have a: "Sscanf_d (Pages r) = None \<longrightarrow>
      ParseInt (Pages r) = None
      \<and> createBook st r = createBook st (r\<lparr>Pages := ''0''\<rparr>)
      \<and> updateBook st i r = updateBook st i (r\<lparr>Pages := ''0''\<rparr>)
      \<and> post_api_books st (Some r) = post_api_books st (Some (r\<lparr>Pages := ''0''\<rparr>))
      \<and> put_api_books st i (Some r) = put_api_books st i (Some (r\<lparr>Pages := ''0''\<rparr>))
      \<and> (fst (createBook st r) = None \<longrightarrow>
            BookPages (last (docs (snd (createBook st r)))) = 0)
      \<and> (fst (updateBook st i r) = None \<longrightarrow>
            (\<exists>b\<in>set (docs (snd (updateBook st i r))). BookStore.ID b = i \<and> BookPages b = 0))"
    using z not_int [of "Pages r"] by blast
  have b: "Sscanf_d (Year r) = None \<longrightarrow>
      ParseInt (Year r) = None
      \<and> createBook st r = createBook st (r\<lparr>Year := ''0''\<rparr>)
      \<and> updateBook st i r = updateBook st i (r\<lparr>Year := ''0''\<rparr>)
      \<and> post_api_books st (Some r) = post_api_books st (Some (r\<lparr>Year := ''0''\<rparr>))
      \<and> put_api_books st i (Some r) = put_api_books st i (Some (r\<lparr>Year := ''0''\<rparr>))
      \<and> (fst (createBook st r) = None \<longrightarrow>
            BookYear (last (docs (snd (createBook st r)))) = 0)
      \<and> (fst (updateBook st i r) = None \<longrightarrow>
            (\<exists>b\<in>set (docs (snd (updateBook st i r))). BookStore.ID b = i \<and> BookYear b = 0))"
    using z not_int [of "Year r"] by blast
  have c: "fst (createBook st r) = None \<longrightarrow>
      BookPages (last (docs (snd (createBook st r)))) = scan_or_zero (Pages r)
      \<and> BookYear (last (docs (snd (createBook st r)))) = scan_or_zero (Year r)"
    using createBook_success_last [of st r] by blast
  have d: "fst (updateBook st i r) = None \<longrightarrow>
      (\<exists>b\<in>set (docs (snd (updateBook st i r))).
          BookStore.ID b = i \<and> BookPages b = scan_or_zero (Pages r) \<and>
          BookYear b = scan_or_zero (Year r))"
    using updateBook_success_doc [of st i r] by blast
  have e: "ParseInt s = Some v \<longrightarrow> scan_or_zero s = v"
    using ParseInt_imp_scan_or_zero [of s v] by blast
  have f: "(sg = [] \<or> sg = ''+'' \<or> sg = ''-'') \<and> ds \<noteq> [] \<and> list_all is_digit ds \<and>
      (rest = [] \<or> \<not> is_digit (hd rest)) \<longrightarrow>
      scan_or_zero (sg @ ds @ rest) = (case ParseInt (sg @ ds) of None \<Rightarrow> 0 | Some n \<Rightarrow> n)"
  proof
    assume h: "(sg = [] \<or> sg = ''+'' \<or> sg = ''-'') \<and> ds \<noteq> [] \<and> list_all is_digit ds \<and>
      (rest = [] \<or> \<not> is_digit (hd rest))"
    then have "Sscanf_d (sg @ ds @ rest) = ParseInt (sg @ ds)"
      by (intro Sscanf_d_leading_integer) simp_all
    with h show "scan_or_zero (sg @ ds @ rest) =
        (case ParseInt (sg @ ds) of None \<Rightarrow> 0 | Some n \<Rightarrow> n)"
      by (simp add: scan_or_zero_def)
  qed
  have g: "t \<noteq> [] \<and> hd t \<notin> set ''+-0123456789'' \<and> isSpace_width t = 0 \<longrightarrow>
      Sscanf_d t = None \<and> scan_or_zero t = 0"
    using Sscanf_d_no_leading_number [of t] scan_or_zero_unparsable [of t] by blast
  from a b c d e f g show ?thesis by blast
qed

text \<open>
  The theorem of C8 on the example library: a request whose pages and year hold no
  number is answered with the success status of both handlers and stored with 0 and
  0; "280" is stored as 280, and "-12abc" scans to -12.
\<close>

theorem leading_integer_is_stored_else_zero_witness:
  "Sscanf_d (Pages usher_request) = None \<and> Sscanf_d (Year usher_request) = None
   \<and> ParseInt (Pages usher_request) = None \<and> ParseInt (Year usher_request) = None
   \<and> fst (post_api_books library (Some usher_request)) =
       JSON 201 [(''message'', ''Book created successfully'')]
   \<and> fst (createBook library usher_request) = None
   \<and> BookPages (last (docs (snd (createBook library usher_request)))) = 0
   \<and> BookYear (last (docs (snd (createBook library usher_request)))) = 0
   \<and> fst (put_api_books library ''1000001'' (Some usher_request)) =
       JSON 200 [(''message'', ''Book updated successfully'')]
   \<and> (\<exists>b\<in>set (docs (snd (updateBook library ''1000001'' usher_request))).
         BookStore.ID b = ''1000001'' \<and> BookPages b = 0)
   \<and> (\<exists>b\<in>set (docs (snd (updateBook library ''1000001'' usher_request))).
         BookStore.ID b = ''1000001'' \<and> BookYear b = 0)
   \<and> ParseInt ''280'' = Some 280 \<and> scan_or_zero ''280'' = 280
   \<and> scan_or_zero ''-12abc'' = - 12
   \<and> Sscanf_d ''about 30'' = None \<and> scan_or_zero ''about 30'' = 0"
proof -
  have fp: "Sscanf_d (Pages usher_request) = None"
    by (simp add: usher_request_def scan_eval)
  have fy: "Sscanf_d (Year usher_request) = None"
    by (simp add: usher_request_def scan_eval)
  have c0: "fst (createBook library (usher_request\<lparr>Pages := ''0''\<rparr>)) = None"
    by (simp add: createBook_result Let_def example_defs usher_request_def scan_eval)
  have u0: "fst (updateBook library ''1000001'' (usher_request\<lparr>Pages := ''0''\<rparr>)) = None"
    by (simp add: updateBook_def UpdateOne_def count_first_def example_defs Let_def)
  have t: "Title usher_request \<noteq> [] \<and> Author usher_request \<noteq> []"
    by (simp add: usher_request_def)
  have p280: "ParseInt ''280'' = Some 280"
    by (simp add: scan_eval)
  have m12: "ParseInt ''-12'' = Some (- 12)"
    by (simp add: scan_eval)
  have shape: "(''-'' = [] \<or> ''-'' = ''+'' \<or> ''-'' = ''-'') \<and> ''12'' \<noteq> [] \<and>
      list_all is_digit ''12'' \<and> (''abc'' = [] \<or> \<not> is_digit (hd ''abc''))"
    by (simp add: is_digit_def)
  have about: "''about 30'' \<noteq> [] \<and> hd ''about 30'' \<notin> set ''+-0123456789'' \<and>
      isSpace_width ''about 30'' = 0"
    by (simp add: isSpace_width_def space_encodings_def)
  note T = leading_integer_is_stored_else_zero [where r = usher_request and st = library
      and i = "''1000001''" and s = "''280''" and v = 280 and sg = "''-''" and ds = "''12''"
      and rest = "''abc''" and t = "''about 30''"]
  from T fp have np: "ParseInt (Pages usher_request) = None"
    by blast
  from T fy have ny: "ParseInt (Year usher_request) = None"
    by blast
  from T fp have "createBook library usher_request =
      createBook library (usher_request\<lparr>Pages := ''0''\<rparr>)"
    by blast
  with c0 have c: "fst (createBook library usher_request) = None"
    by simp
  from T fp have "updateBook library ''1000001'' usher_request =
      updateBook library ''1000001'' (usher_request\<lparr>Pages := ''0''\<rparr>)"
    by blast
  with u0 have u: "fst (updateBook library ''1000001'' usher_request) = None"
    by simp
  from T fp c have cp: "BookPages (last (docs (snd (createBook library usher_request)))) = 0"
    by blast
  from T fy c have cy: "BookYear (last (docs (snd (createBook library usher_request)))) = 0"
    by blast
  from T fp u have up: "\<exists>b\<in>set (docs (snd (updateBook library ''1000001'' usher_request))).
         BookStore.ID b = ''1000001'' \<and> BookPages b = 0"
    by blast
  from T fy u have uy: "\<exists>b\<in>set (docs (snd (updateBook library ''1000001'' usher_request))).
         BookStore.ID b = ''1000001'' \<and> BookYear b = 0"
    by blast
  from T p280 have s280: "scan_or_zero ''280'' = 280"
    by blast
  from T shape have "scan_or_zero (''-'' @ ''12'' @ ''abc'') =
      (case ParseInt (''-'' @ ''12'') of None \<Rightarrow> 0 | Some n \<Rightarrow> n)"
    by blast
  with m12 have s12: "scan_or_zero ''-12abc'' = - 12"
    by simp
  from T about have ab: "Sscanf_d ''about 30'' = None \<and> scan_or_zero ''about 30'' = 0"
    by blast
  have po: "fst (post_api_books library (Some usher_request)) =
       JSON 201 [(''message'', ''Book created successfully'')]"
    using c t
    by (cases "createBook library usher_request") (simp add: post_api_books_def StatusCreated_def)
  have pu: "fst (put_api_books library ''1000001'' (Some usher_request)) =
       JSON 200 [(''message'', ''Book updated successfully'')]"
    using u t
    by (cases "updateBook library ''1000001'' usher_request")
       (simp add: put_api_books_def StatusOK_def)
  from fp fy np ny po c cp cy pu up uy p280 s280 s12 ab show ?thesis by simp
qed

text \<open>
  C8 as stated fails: "12abc" and "3.5" are not integers, and a request with these
  strings is stored with 12 pages and the year 3, not with 0.
\<close>

theorem non_integer_with_leading_number_is_kept:
  "ParseInt (Pages marginalia_request) = None
   \<and> ParseInt (Year marginalia_request) = None
   \<and> fst (createBook library marginalia_request) = None
   \<and> BookPages (last (docs (snd (createBook library marginalia_request)))) = 12
   \<and> BookYear (last (docs (snd (createBook library marginalia_request)))) = 3
   \<and> fst (post_api_books library (Some marginalia_request)) =
       JSON 201 [(''message'', ''Book created successfully'')]"
  by (simp add: createBook_result Let_def example_defs marginalia_request_def scan_eval
      post_api_books_def StatusCreated_def)

text \<open>
  What counts as a failed scan is decided by \<^verbatim>\<open>Sscanf\<close>: leading space, a sign and text
  after the digits are accepted, so "12abc" is stored as 12; a string without a leading
  number, a number outside the 64-bit range and the empty string fail.
\<close>

lemma Sscanf_d_examples:
  "Sscanf_d ''292'' = Some 292"
  "Sscanf_d '' -12abc'' = Some (- 12)"
  "Sscanf_d ''abc'' = None"
  "Sscanf_d [] = None"
  "Sscanf_d ''9223372036854775808'' = None"
  "scan_or_zero ''12abc'' = 12"
  "scan_or_zero ''abc'' = 0"
  by (simp_all add: scan_eval)

subsection \<open>The allocator in general\<close>

text \<open>
  What \<^verbatim>\<open>getNextID\<close> does in general.  It falls back to the counter when the store
  cannot be reached, is empty, or the id it reads does not parse; otherwise it returns
  the successor of the id of \<open>top_by_id\<close>, the document whose id is greatest in the
  order of strings.
\<close>

lemma getNextID_fallback:
  assumes "\<not> reachable st \<or> docs st = [] \<or>
           (\<exists>b bs. docs st = b # bs \<and> ParseInt (BookStore.ID (top_by_id b bs)) = None)"
  shows "getNextID st =
           (FormatInt (idCounter st), st\<lparr>idCounter := wrap64 (idCounter st + 1)\<rparr>)"
  using assms
  by (auto simp: getNextID_def Aggregate_sort_id_desc_limit1_def Let_def)

lemma getNextID_from_store:
  assumes "reachable st" and "docs st = b # bs"
    and "ParseInt (BookStore.ID (top_by_id b bs)) = Some n"
  shows "getNextID st =
           (FormatInt (wrap64 (n + 1)), st\<lparr>idCounter := wrap64 (wrap64 (n + 1) + 1)\<rparr>)"
  using assms
  by (simp add: getNextID_def Aggregate_sort_id_desc_limit1_def Let_def)

lemma string_less_irrefl: "\<not> string_less a a"
  by (induction a) auto

lemma string_less_trans: "string_less a b \<Longrightarrow> string_less b c \<Longrightarrow> string_less a c"
proof (induction a b arbitrary: c rule: string_less.induct)
  case 1
  then show ?case by simp
next
  case (2 y ys)
  then show ?case by (cases c) auto
next
  case (3 x xs)
  then show ?case by simp
next
  case (4 x xs y ys)
  then show ?case by (cases c) auto
qed

lemma string_less_total: "\<not> string_less a b \<Longrightarrow> \<not> string_less b a \<Longrightarrow> a = b"
proof (induction a b rule: string_less.induct)
  case 1
  then show ?case by simp
next
  case (2 y ys)
  then show ?case by simp
next
  case (3 x xs)
  then show ?case by simp
next
  case (4 x xs y ys)
  then show ?case
    by (cases "(of_char x :: nat) < of_char y"; cases "(of_char y :: nat) < of_char x") auto
qed

lemma string_less_below: "string_less t x \<Longrightarrow> \<not> string_less b x \<Longrightarrow> string_less t b"
  using string_less_total [of b x] string_less_trans [of t x b] by auto

lemma top_by_id_greatest:
  "top_by_id b bs \<in> set (b # bs) \<and>
   (\<forall>x\<in>set (b # bs). \<not> string_less (BookStore.ID (top_by_id b bs)) (BookStore.ID x))"
proof (induction bs arbitrary: b)
  case Nil
  then show ?case by (simp add: string_less_irrefl)
next
  case (Cons x xs)
  let ?b' = "if string_less (BookStore.ID b) (BookStore.ID x) then x else b"
  let ?t = "top_by_id ?b' xs"
  from Cons.IH [of ?b'] have
    mem: "?t \<in> set (?b' # xs)" and
    top: "\<forall>y\<in>set (?b' # xs). \<not> string_less (BookStore.ID ?t) (BookStore.ID y)"
    by blast+
  have nb: "\<not> string_less (BookStore.ID ?t) (BookStore.ID b)"
    using top string_less_trans [of "BookStore.ID ?t" "BookStore.ID b" "BookStore.ID x"]
    by (cases "string_less (BookStore.ID b) (BookStore.ID x)") auto
  have nx: "\<not> string_less (BookStore.ID ?t) (BookStore.ID x)"
    using top string_less_below [of "BookStore.ID ?t" "BookStore.ID x" "BookStore.ID b"]
    by (cases "string_less (BookStore.ID b) (BookStore.ID x)") auto
  from mem have "?t \<in> set (b # x # xs)"
    by (cases "string_less (BookStore.ID b) (BookStore.ID x)") auto
  with nb nx top show ?case by auto
qed


subsection \<open>Sequences of inserts\<close>

text \<open>
  Requests whose five fields are pairwise distinct, and new to the store, are all
  inserted, in their order; \<^verbatim>\<open>findAllBooks\<close> then lists every stored document with the
  five entries of its map literal.
\<close>

lemma createBook_keeps_reachable: "reachable (snd (createBook st r)) = reachable st"
  using getNextID_keeps_collection [of st] by (simp add: createBook_result Let_def)

lemma createBook_new_fields:
  assumes "reachable st"
    and "(Title r, Author r, scan_or_zero (Year r), scan_or_zero (Pages r), Edition r) \<notin>
         (\<lambda>b. (BookName b, BookAuthor b, BookYear b, BookPages b, BookISBN b)) ` set (docs st)"
  shows "map (\<lambda>b. (BookName b, BookAuthor b, BookYear b, BookPages b, BookISBN b))
           (docs (snd (createBook st r))) =
         map (\<lambda>b. (BookName b, BookAuthor b, BookYear b, BookPages b, BookISBN b)) (docs st) @
           [(Title r, Author r, scan_or_zero (Year r), scan_or_zero (Pages r), Edition r)]"
proof -
  have "\<not> (\<exists>d\<in>set (docs st). BookName d = Title r \<and> BookAuthor d = Author r \<and>
                   BookYear d = scan_or_zero (Year r) \<and> BookPages d = scan_or_zero (Pages r) \<and>
                   BookISBN d = Edition r)"
    using assms(2) by (auto simp: image_iff)
  then show ?thesis
    using assms(1) by (auto simp: createBook_result Let_def)
qed

lemma inserts_are_kept:
  assumes "reachable st"
    and "distinct (map (\<lambda>r. (Title r, Author r, scan_or_zero (Year r), scan_or_zero (Pages r),
            Edition r)) rs)"
    and "\<forall>r\<in>set rs. (Title r, Author r, scan_or_zero (Year r), scan_or_zero (Pages r), Edition r) \<notin>
         (\<lambda>b. (BookName b, BookAuthor b, BookYear b, BookPages b, BookISBN b)) ` set (docs st)"
  shows "map (\<lambda>b. (BookName b, BookAuthor b, BookYear b, BookPages b, BookISBN b))
           (docs (fold (\<lambda>r s. snd (createBook s r)) rs st)) =
         map (\<lambda>b. (BookName b, BookAuthor b, BookYear b, BookPages b, BookISBN b)) (docs st) @
         map (\<lambda>r. (Title r, Author r, scan_or_zero (Year r), scan_or_zero (Pages r), Edition r)) rs"
  using assms
proof (induction rs arbitrary: st)
  case Nil
  then show ?case by simp
next
  case (Cons r rs)
  let ?F = "\<lambda>b. (BookName b, BookAuthor b, BookYear b, BookPages b, BookISBN b)"
  let ?T = "\<lambda>r. (Title r, Author r, scan_or_zero (Year r), scan_or_zero (Pages r), Edition r)"
  let ?st = "snd (createBook st r)"
  have new: "?T r \<notin> ?F ` set (docs st)"
    using Cons.prems(3) by simp
  have step: "map ?F (docs ?st) = map ?F (docs st) @ [?T r]"
    by (rule createBook_new_fields [OF Cons.prems(1) new])
  have r': "reachable ?st"
    using Cons.prems(1) by (simp add: createBook_keeps_reachable)
  have d': "distinct (map ?T rs)"
    using Cons.prems(2) by simp
  have "?F ` set (docs ?st) = set (map ?F (docs ?st))"
    by simp
  also have "\<dots> = ?F ` set (docs st) \<union> {?T r}"
    unfolding step by simp
  finally have img: "?F ` set (docs ?st) = ?F ` set (docs st) \<union> {?T r}" .
  have nr: "?T r \<notin> ?T ` set rs"
    using Cons.prems(2) by simp
  have f': "\<forall>r'\<in>set rs. ?T r' \<notin> ?F ` set (docs ?st)"
  proof
    fix r'
    assume m: "r' \<in> set rs"
    then have "?T r' \<in> ?T ` set rs"
      by (rule imageI)
    with nr have "?T r' \<noteq> ?T r"
      by metis
    moreover from m Cons.prems(3) have "?T r' \<notin> ?F ` set (docs st)"
      by simp
    ultimately show "?T r' \<notin> ?F ` set (docs ?st)"
      unfolding img by blast
  qed
  from Cons.IH [OF r' d' f'] step show ?case by simp
qed

lemma findAllBooks_reachable:
  "reachable st \<Longrightarrow>
     findAllBooks st =
       Some (map (\<lambda>res.
            [(''ID'', Str (BookStore.ID res)),
             (''BookName'', Str (BookName res)),
             (''BookAuthor'', Str (BookAuthor res)),
             (''BookISBN'', Str (BookISBN res)),
             (''BookPages'', Num (BookPages res))]) (docs st))"
  by (simp add: findAllBooks_def Find_def)

end
